theory Spec2Isabelle
  imports Main
begin

section \<open>Go strings\<close>

text \<open>
  A Go string is a sequence of bytes; it is modelled as a \<open>char list\<close> (\<open>string\<close>), so
  \<open>len(s)\<close> is \<open>length s\<close>, \<open>s[:n]\<close> is \<open>take n s\<close> and \<open>s[n:]\<close> is \<open>drop n s\<close>
  (every slice below is taken inside a branch that guarantees it is in range).
\<close>

definition HasPrefix :: "string \<Rightarrow> string \<Rightarrow> bool" where
  "HasPrefix s p = (take (length p) s = p)"

fun Contains :: "string \<Rightarrow> string \<Rightarrow> bool" where
  "Contains [] sub = (sub = [])"
| "Contains (c # cs) sub = (HasPrefix (c # cs) sub \<or> Contains cs sub)"

definition Repeat :: "string \<Rightarrow> nat \<Rightarrow> string" where
  "Repeat s n = concat (replicate n s)"

text \<open>\<open>strings.Split(s, sep)\<close> for a separator of one byte; \<open>Split("", sep)\<close> is \<open>[""]\<close>.\<close>

fun Split :: "string \<Rightarrow> char \<Rightarrow> string list" where
  "Split [] sep = [[]]"
| "Split (c # cs) sep =
     (if c = sep then [] # Split cs sep
      else (case Split cs sep of [] \<Rightarrow> [[c]] | p # ps \<Rightarrow> (c # p) # ps))"

fun Join :: "string list \<Rightarrow> string \<Rightarrow> string" where
  "Join [] sep = []"
| "Join [x] sep = x"
| "Join (x # y # ys) sep = x @ sep @ Join (y # ys) sep"

text \<open>\<open>strings.ReplaceAll(s, old, new)\<close> for an \<open>old\<close> of one byte.\<close>

definition ReplaceAll :: "string \<Rightarrow> char \<Rightarrow> string \<Rightarrow> string" where
  "ReplaceAll s old new = concat (map (\<lambda>c. if c = old then new else [c]) s)"

text \<open>
  \<open>strings.ToLower\<close> has two paths. A string of ASCII bytes only (every byte below
  \<open>utf8.RuneSelf\<close>, \<open>0x80\<close>) is folded byte by byte. Any other string is handed to
  \<open>strings.Map(unicode.ToLower, s)\<close>, which decodes it as UTF-8 and folds each rune by the
  Unicode tables of Go's library (so U+212A KELVIN SIGN becomes \<open>k\<close>). The tables are not
  part of this repository: that second path is the parameter \<open>ul\<close> of everything that
  lowers a string, and what is proved holds for every such function.
\<close>

type_synonym UnicodeLower = "string \<Rightarrow> string"

definition lower_byte :: "char \<Rightarrow> char" where
  "lower_byte c =
     (case map_of (zip ''ABCDEFGHIJKLMNOPQRSTUVWXYZ'' ''abcdefghijklmnopqrstuvwxyz'') c of
        None \<Rightarrow> c
      | Some l \<Rightarrow> l)"

definition isASCII :: "string \<Rightarrow> bool" where
  "isASCII s = list_all (\<lambda>c. \<not> digit7 c) s"

definition ToLower :: "UnicodeLower \<Rightarrow> string \<Rightarrow> string" where
  "ToLower ul s = (if isASCII s then map lower_byte s else ul s)"

text \<open>
  \<open>strings.TrimSpace\<close> removes the white-space runes of \<open>unicode.IsSpace\<close> from both
  ends. They are listed by their UTF-8 encodings: \<open>leading_space\<close> is the number of
  bytes of the white-space rune at the head of a string (0 when there is none),
  \<open>trailing_space\<close> the same for the end, read on the reversed string.
\<close>

definition ascii_space :: "char set" where
  "ascii_space = {CHR 0x09, CHR 0x0A, CHR 0x0B, CHR 0x0C, CHR 0x0D, CHR 0x20}"

definition general_punctuation_space :: "char set" where
  "general_punctuation_space =
     {CHR 0x80, CHR 0x81, CHR 0x82, CHR 0x83, CHR 0x84, CHR 0x85, CHR 0x86, CHR 0x87,
      CHR 0x88, CHR 0x89, CHR 0x8A, CHR 0xA8, CHR 0xA9, CHR 0xAF}"

definition leading_space :: "string \<Rightarrow> nat" where
  "leading_space s =
     (case s of
        [] \<Rightarrow> 0
      | b # r \<Rightarrow>
          if b \<in> ascii_space then 1
          else (case r of
            [] \<Rightarrow> 0
          | b1 # r1 \<Rightarrow>
              if b = CHR 0xC2 \<and> (b1 = CHR 0x85 \<or> b1 = CHR 0xA0) then 2
              else (case r1 of
                [] \<Rightarrow> 0
              | b2 # r2 \<Rightarrow>
                  if (b = CHR 0xE1 \<and> b1 = CHR 0x9A \<and> b2 = CHR 0x80)
                     \<or> (b = CHR 0xE2 \<and> b1 = CHR 0x80 \<and> b2 \<in> general_punctuation_space)
                     \<or> (b = CHR 0xE2 \<and> b1 = CHR 0x81 \<and> b2 = CHR 0x9F)
                     \<or> (b = CHR 0xE3 \<and> b1 = CHR 0x80 \<and> b2 = CHR 0x80)
                  then 3 else 0)))"

definition trailing_space :: "string \<Rightarrow> nat" where
  "trailing_space s =
     (case s of
        [] \<Rightarrow> 0
      | b # r \<Rightarrow>
          if b \<in> ascii_space then 1
          else (case r of
            [] \<Rightarrow> 0
          | b1 # r1 \<Rightarrow>
              if b1 = CHR 0xC2 \<and> (b = CHR 0x85 \<or> b = CHR 0xA0) then 2
              else (case r1 of
                [] \<Rightarrow> 0
              | b2 # r2 \<Rightarrow>
                  if (b2 = CHR 0xE1 \<and> b1 = CHR 0x9A \<and> b = CHR 0x80)
                     \<or> (b2 = CHR 0xE2 \<and> b1 = CHR 0x80 \<and> b \<in> general_punctuation_space)
                     \<or> (b2 = CHR 0xE2 \<and> b1 = CHR 0x81 \<and> b = CHR 0x9F)
                     \<or> (b2 = CHR 0xE3 \<and> b1 = CHR 0x80 \<and> b = CHR 0x80)
                  then 3 else 0)))"

lemma leading_space_le: "leading_space s \<le> length s"
  by (simp add: leading_space_def split: list.split)

lemma trailing_space_le: "trailing_space s \<le> length s"
  by (simp add: trailing_space_def split: list.split)

function trim_left :: "string \<Rightarrow> string" where
  "trim_left s = (if leading_space s = 0 then s else trim_left (drop (leading_space s) s))"
  by pat_completeness auto
termination
proof (relation "measure length")
  show "wf (measure length)" by simp
next
  fix s :: string
  assume "leading_space s \<noteq> 0"
  moreover have "leading_space s \<le> length s" by (rule leading_space_le)
  ultimately show "(drop (leading_space s) s, s) \<in> measure length" by simp
qed

function trim_right_rev :: "string \<Rightarrow> string" where
  "trim_right_rev s =
     (if trailing_space s = 0 then s else trim_right_rev (drop (trailing_space s) s))"
  by pat_completeness auto
termination
proof (relation "measure length")
  show "wf (measure length)" by simp
next
  fix s :: string
  assume "trailing_space s \<noteq> 0"
  moreover have "trailing_space s \<le> length s" by (rule trailing_space_le)
  ultimately show "(drop (trailing_space s) s, s) \<in> measure length" by simp
qed

declare trim_left.simps [simp del] trim_right_rev.simps [simp del]

definition TrimSpace :: "string \<Rightarrow> string" where
  "TrimSpace s = rev (trim_right_rev (rev (trim_left s)))"


section \<open>Configuration (package config)\<close>

record PrivacyConfig =
  EnableEmailMask :: bool
  EnablePhoneMask :: bool
  EnableInputSanitize :: bool

record FeaturesConfig =
  SmartFilter :: bool
  KeywordHighlight :: bool
  AutoSampling :: bool
  PerformanceTracking :: bool
  Privacy :: PrivacyConfig

record RotationConfig =
  MaxSize :: int
  MaxBackups :: int
  MaxAge :: int
  Compress :: bool

record ConsoleConfig =
  Console_Enabled :: bool
  Console_Format :: string

record FileConfig =
  File_Enabled :: bool
  File_Path :: string
  File_Format :: string
  Rotation :: RotationConfig

record OutputConfig =
  Console :: ConsoleConfig
  File :: FileConfig

record MiddlewareConfig =
  Middleware_LogBody :: bool
  Middleware_LogHeaders :: bool
  Middleware_MaxBodySize :: int

record LoggerConfig =
  Logger_Level :: string
  Logger_Format :: string
  Output :: OutputConfig
  Features :: FeaturesConfig
  Middleware :: MiddlewareConfig

record Config =
  Logger :: LoggerConfig

text \<open>
  The configuration that \<open>LoadConfig\<close> yields when no file overrides a key: the values
  of \<open>setDefaults\<close> (the viewer's keys, which nothing below reads, are left out).
\<close>

definition defaultConfig :: Config where
  "defaultConfig =
     \<lparr>Logger = \<lparr>
        Logger_Level = ''info'',
        Logger_Format = ''color'',
        Output = \<lparr>
          Console = \<lparr>Console_Enabled = True, Console_Format = ''color''\<rparr>,
          File = \<lparr>File_Enabled = True, File_Path = ''logs/app.log'', File_Format = ''json'',
                  Rotation = \<lparr>MaxSize = 10, MaxBackups = 5, MaxAge = 30, Compress = True\<rparr>\<rparr>\<rparr>,
        Features = \<lparr>
          SmartFilter = True, KeywordHighlight = True, AutoSampling = False,
          PerformanceTracking = True,
          Privacy = \<lparr>EnableEmailMask = False, EnablePhoneMask = False,
                     EnableInputSanitize = False\<rparr>\<rparr>,
        Middleware = \<lparr>Middleware_LogBody = True, Middleware_LogHeaders = False,
                       Middleware_MaxBodySize = 2048\<rparr>\<rparr>\<rparr>"

definition privacy :: "Config \<Rightarrow> PrivacyConfig" where
  "privacy c = Privacy (Features (Logger c))"


section \<open>Privacy transforms (package utils)\<close>

text \<open>
  The functions read the package variable \<open>config.GlobalConfig\<close>, a pointer that is
  \<open>nil\<close> until a configuration has been loaded; it is the first argument here
  (\<open>None\<close> for \<open>nil\<close>).
\<close>

definition maskString :: "string \<Rightarrow> string" where
  "maskString s =
     (if length s \<le> 2 then Repeat ''*'' (length s)
      else if length s \<le> 4 then take 1 s @ Repeat ''*'' (length s - 1)
      else take 2 s @ Repeat ''*'' (length s - 4) @ drop (length s - 2) s)"

definition MaskEmail :: "Config option \<Rightarrow> string \<Rightarrow> string" where
  "MaskEmail GlobalConfig email =
     (if email = [] then []
      else if (case GlobalConfig of None \<Rightarrow> False
               | Some c \<Rightarrow> \<not> EnableEmailMask (privacy c)) then email
      else let parts = Split email CHR ''@'' in
        if length parts \<noteq> 2 then maskString email
        else let username = parts ! 0; domain = parts ! 1 in
          if length username \<le> 2 then username @ ''@'' @ domain
          else if length username \<le> 4 then take 2 username @ ''**@'' @ domain
          else take 2 username @ Repeat ''*'' (length username - 2) @ ''@'' @ domain)"

definition MaskPhone :: "Config option \<Rightarrow> string \<Rightarrow> string" where
  "MaskPhone GlobalConfig phone =
     (if phone = [] then []
      else if (case GlobalConfig of None \<Rightarrow> False
               | Some c \<Rightarrow> \<not> EnablePhoneMask (privacy c)) then phone
      else if length phone < 7 then
        (if length phone \<le> 2 then Repeat ''*'' (length phone)
         else if length phone \<le> 4 then take 2 phone @ Repeat ''*'' (length phone - 2)
         else take 2 phone @ ''***'')
      else if length phone = 11 \<and> \<not> HasPrefix phone ''+'' then
        take 3 phone @ ''****'' @ drop 7 phone
      else if HasPrefix phone ''+'' \<and> length phone > 10 \<and> length phone \<ge> 10 then
        take 3 phone @ ''****'' @ drop (length phone - 4) phone
      else if length phone \<le> 4 then maskString phone
      else take 2 phone @ Repeat ''*'' (length phone - 4) @ drop (length phone - 2) phone)"

definition SanitizeUserInput :: "Config option \<Rightarrow> string \<Rightarrow> string" where
  "SanitizeUserInput GlobalConfig input =
     (if (case GlobalConfig of None \<Rightarrow> False
          | Some c \<Rightarrow> \<not> EnableInputSanitize (privacy c)) then input
      else let input1 = ReplaceAll input (CHR 0x0A) [CHR 0x5C, CHR ''n''];
               input2 = ReplaceAll input1 (CHR 0x0D) [CHR 0x5C, CHR ''r''];
               input3 = ReplaceAll input2 (CHR 0x09) [CHR 0x5C, CHR ''t'']
           in if length input3 > 1000 then take 1000 input3 @ ''...(truncated)''
              else input3)"


section \<open>Request middleware (package middleware)\<close>

type_synonym Level = int

definition LevelDebug :: Level where "LevelDebug = -4"
definition LevelInfo :: Level where "LevelInfo = 0"
definition LevelWarn :: Level where "LevelWarn = 4"
definition LevelError :: Level where "LevelError = 8"

record GinMiddlewareConfig =
  LogBody :: bool
  LogHeaders :: bool
  MaxBodySize :: int
  SkipPaths :: "string list"

definition DefaultGinMiddlewareConfig :: GinMiddlewareConfig where
  "DefaultGinMiddlewareConfig =
     \<lparr>LogBody = True, LogHeaders = False, MaxBodySize = 2048,
      SkipPaths = [''/health'', ''/ping'', ''/metrics'']\<rparr>"

text \<open>
  What the middleware reads of the request. \<open>Header\<close> is \<open>http.Header\<close>, a map from
  canonical names to value lists, kept as an association list; \<open>Body\<close> is \<open>None\<close> for
  a \<open>nil\<close> body, else the bytes \<open>io.ReadAll\<close> returns.
\<close>

record Request =
  Method :: string
  Path :: string
  RawQuery :: string
  Header :: "(string \<times> string list) list"
  Body :: "string option"
  UserAgent :: string

text \<open>
  What the rest of the chain (\<open>c.Next()\<close>, which is taken to return) leaves behind:
  the response status and size, the context value \<open>cache_status\<close> when it is set to a
  string, and the texts of \<open>c.Errors\<close>.
\<close>

record Outcome =
  Status :: int
  Size :: int
  CacheStatus :: "string option"
  Errors :: "string list"

text \<open>
  What the middleware takes from outside this repository's code: the elapsed time,
  the result of \<open>utils.GetClientIP\<close>, whether the default logger is enabled at debug
  level, \<open>encoding/json\<close> (\<open>json_compact s\<close> is the compact re-encoding of \<open>s\<close>, or
  \<open>None\<close> when \<open>s\<close> does not parse or does not encode), and the Unicode path of
  \<open>strings.ToLower\<close>.
\<close>

record GinEnv =
  latency :: int
  clientIP :: string
  debugEnabled :: bool
  json_compact :: "string \<Rightarrow> string option"
  unicodeLower :: UnicodeLower

datatype AttrValue =
    StringAttr string
  | IntAttr int
  | Int64Attr int
  | DurationAttr int
  | AnyAttr "(string \<times> string) list"

type_synonym LogCall = "Level \<times> string \<times> (string \<times> AttrValue) list"

text \<open>
  \<open>c.GetHeader(key)\<close> is \<open>http.Header.Get\<close>: the first value stored under the canonical
  form of \<open>key\<close> (\<open>textproto.CanonicalMIMEHeaderKey\<close>). A key made of header-field bytes
  only gets an upper-case first letter and an upper-case letter after each hyphen, every
  other letter in lower case; any other key is looked up as it is.
\<close>

definition upper_byte :: "char \<Rightarrow> char" where
  "upper_byte c =
     (case map_of (zip ''abcdefghijklmnopqrstuvwxyz'' ''ABCDEFGHIJKLMNOPQRSTUVWXYZ'') c of
        None \<Rightarrow> c
      | Some u \<Rightarrow> u)"

definition validHeaderFieldByte :: "char \<Rightarrow> bool" where
  "validHeaderFieldByte c =
     (c \<in> set ''!#$%&*+-.^_`|~0123456789'' \<or> c = CHR 0x27
      \<or> c \<in> set ''abcdefghijklmnopqrstuvwxyz'' \<or> c \<in> set ''ABCDEFGHIJKLMNOPQRSTUVWXYZ'')"

fun canonicalMIMEHeaderKey :: "bool \<Rightarrow> string \<Rightarrow> string" where
  "canonicalMIMEHeaderKey upper [] = []"
| "canonicalMIMEHeaderKey upper (c # cs) =
     (if upper then upper_byte c else lower_byte c)
       # canonicalMIMEHeaderKey ((if upper then upper_byte c else lower_byte c) = CHR ''-'') cs"

definition CanonicalMIMEHeaderKey :: "string \<Rightarrow> string" where
  "CanonicalMIMEHeaderKey s =
     (if list_all validHeaderFieldByte s then canonicalMIMEHeaderKey True s else s)"

definition Header_Get :: "(string \<times> string list) list \<Rightarrow> string \<Rightarrow> string" where
  "Header_Get h key =
     (case map_of h (CanonicalMIMEHeaderKey key) of
        None \<Rightarrow> [] | Some [] \<Rightarrow> [] | Some (v # vs) \<Rightarrow> v)"

definition shouldLogRequestBody :: "string \<Rightarrow> string \<Rightarrow> bool" where
  "shouldLogRequestBody method contentType =
     (if method \<noteq> ''POST'' \<and> method \<noteq> ''PUT'' \<and> method \<noteq> ''PATCH'' then False
      else if HasPrefix contentType ''multipart/form-data'' then False
      else True)"

definition isSensitiveHeader :: "UnicodeLower \<Rightarrow> string \<Rightarrow> bool" where
  "isSensitiveHeader ul name =
     list_ex (\<lambda>sensitive. ToLower ul name = sensitive)
       [''authorization'', ''cookie'', ''x-api-key'', ''x-auth-token'', ''x-access-token'',
        ''x-csrf-token'']"

definition formatJSONBody :: "(string \<Rightarrow> string option) \<Rightarrow> string \<Rightarrow> string" where
  "formatJSONBody compact jsonStr =
     (case compact jsonStr of None \<Rightarrow> jsonStr | Some compactJSON \<Rightarrow> compactJSON)"

text \<open>
  \<open>bodyStr[:maxSize]\<close> panics for a negative \<open>maxSize\<close> (the slice bound is out of
  range); the result is \<open>None\<close> then.
\<close>

definition prepareBodyForLogging ::
    "(string \<Rightarrow> string option) \<Rightarrow> string \<Rightarrow> int \<Rightarrow> string option" where
  "prepareBodyForLogging compact bodyBytes maxSize =
     (if length bodyBytes = 0 then Some []
      else if int (length bodyBytes) > maxSize \<and> maxSize < 0 then None
      else
        let bodyStr = (if int (length bodyBytes) > maxSize
                       then take (nat maxSize) bodyBytes @ ''...(truncated)''
                       else bodyBytes);
            trimmed = TrimSpace bodyStr
        in if HasPrefix trimmed ''{'' \<or> HasPrefix trimmed ''[''
           then Some (formatJSONBody compact trimmed)
           else Some bodyStr)"

definition getLogLevelForStatus :: "int \<Rightarrow> Level" where
  "getLogLevelForStatus status =
     (if status \<ge> 500 then LevelError
      else if status \<ge> 400 then LevelWarn
      else if status \<ge> 300 then LevelInfo
      else LevelInfo)"

text \<open>
  The handler function that \<open>GinMiddlewareWithConfig(cfg)\<close> returns, run on one request.
  The result lists the calls of \<open>slog.LogAttrs\<close> it makes (level, message, attributes);
  \<open>None\<close> is a panic in \<open>prepareBodyForLogging\<close>.
\<close>

definition GinMiddlewareWithConfig ::
    "GinMiddlewareConfig \<Rightarrow> GinEnv \<Rightarrow> Request \<Rightarrow> Outcome \<Rightarrow> LogCall list option" where
  "GinMiddlewareWithConfig cfg env req out =
     (let path = Path req; rawQuery = RawQuery req in
      if list_ex (\<lambda>skipPath. HasPrefix path skipPath) (SkipPaths cfg) then Some []
      else
        let bodyBytes =
              (if LogBody cfg
                  \<and> shouldLogRequestBody (Method req) (Header_Get (Header req) ''Content-Type'')
               then (case Body req of None \<Rightarrow> [] | Some b \<Rightarrow> b) else []);
            requestSize = int (length bodyBytes);
            status = Status out;
            responseSize = Size out;
            attrs0 =
              [(''type'', StringAttr ''http_request''),
               (''method'', StringAttr (Method req)),
               (''path'', StringAttr path),
               (''status'', IntAttr status),
               (''latency'', DurationAttr (latency env)),
               (''client_ip'', StringAttr (clientIP env)),
               (''user_agent'', StringAttr (UserAgent req)),
               (''request_size'', Int64Attr requestSize),
               (''response_size'', Int64Attr responseSize)];
            attrs1 = attrs0 @ (if rawQuery \<noteq> [] then [(''query'', StringAttr rawQuery)] else []);
            attrs2 = attrs1 @
              (case CacheStatus out of None \<Rightarrow> [] | Some cs \<Rightarrow> [(''cache'', StringAttr cs)]);
            attrs3 = attrs2 @
              (if LogHeaders cfg \<and> (status \<ge> 400 \<or> debugEnabled env) then
                 (let headers =
                        map (\<lambda>(name, values).
                               if isSensitiveHeader (unicodeLower env) name then (name, ''[FILTERED]'')
                               else (name, Join values '', '')) (Header req)
                  in if length headers > 0 then [(''headers'', AnyAttr headers)] else [])
               else [])
        in
          (case (if LogBody cfg \<and> length bodyBytes > 0 \<and> (status \<ge> 400 \<or> debugEnabled env)
                 then map_option (\<lambda>bodyToLog. [(''request_body'', StringAttr bodyToLog)])
                        (prepareBodyForLogging (json_compact env) bodyBytes (MaxBodySize cfg))
                 else Some []) of
             None \<Rightarrow> None
           | Some bodyAttr \<Rightarrow>
               let attrs4 = attrs3 @ bodyAttr;
                   attrs5 = attrs4 @
                     (if length (Errors out) > 0
                      then [(''errors'', StringAttr (Join (Errors out) ''; ''))] else []);
                   level = getLogLevelForStatus status;
                   message = ''HTTP Request'';
                   requestID = Header_Get (Header req) ''X-Request-ID'';
                   attrs6 = attrs5 @
                     (if requestID \<noteq> [] then [(''request_id'', StringAttr requestID)] else [])
               in Some [(level, message, attrs6)]))"


section \<open>Records and handlers (packages handler and logger)\<close>

text \<open>
  Times are nanoseconds (\<open>time.Time\<close> read as an instant, \<open>time.Duration\<close> as a
  difference), so \<open>now.Sub(t)\<close> is \<open>now - t\<close>.
\<close>

type_synonym Time = int
type_synonym Duration = int

definition Millisecond :: Duration where "Millisecond = 1000000"
definition Minute :: Duration where "Minute = 60000000000"

text \<open>
  An attribute value is a group of attributes or a value of another kind; the latter
  is held as the text \<open>Value.String()\<close> returns for it.
\<close>

datatype Value = ScalarValue string | GroupValue "(string \<times> Value) list"

fun Value_String :: "Value \<Rightarrow> string"
  and Attrs_String :: "(string \<times> Value) list \<Rightarrow> string" where
  "Value_String (ScalarValue s) = s"
| "Value_String (GroupValue as) = ''['' @ Attrs_String as @ '']''"
| "Attrs_String [] = []"
| "Attrs_String ((k, v) # as) =
     k @ ''='' @ Value_String v @ (if as = [] then [] else '' '' @ Attrs_String as)"

record Record =
  Time :: Time
  Message :: string
  Level :: Level
  Attrs :: "(string \<times> Value) list"

definition Clone :: "Record \<Rightarrow> Record" where
  "Clone r = r"

text \<open>
  Handlers are used through pointers. A handler value below holds the fields that never
  change after construction; what a handler mutates lives in the world, under the
  address of the object: \<open>ch_self\<close> is the address of a \<open>ColorHandler\<close> (its \<open>mu\<close> and
  \<open>lastLogTime\<close>), \<open>errorMutex\<close> names the lock embedded in a \<open>SmartFilterHandler\<close>
  struct, and \<open>errorTracker\<close> is the reference held in the map-typed field. Writers
  (\<open>io.Writer\<close>) are named by numbers.
\<close>

record ColorHandler =
  ch_self :: nat
  ch_w :: nat
  ch_Level :: "Level option"
  enableHighlight :: bool
  compactMode :: bool

datatype Binding = BoundAttrs "(string \<times> Value) list" | BoundGroup string

text \<open>
  \<open>slog.NewTextHandler\<close> and \<open>slog.NewJSONHandler\<close> (standard library): a writer, the
  minimum level of the options, the format, and what \<open>WithAttrs\<close>/\<open>WithGroup\<close> have
  bound so far.
\<close>

record StdHandler =
  sh_w :: nat
  sh_Level :: "Level option"
  sh_json :: bool
  sh_bound :: "Binding list"

record SmartFilter =
  ignoreGinDebug :: bool
  ignoreHealthCheck :: bool
  minLevel :: Level
  errorTracker :: nat
  errorMutex :: nat
  errorWindow :: Duration

datatype Handler =
    Color ColorHandler
  | Std StdHandler
  | SmartFilterHandler SmartFilter Handler
  | MultiHandler "Handler list"

datatype Output =
    BlankLine
  | ColorLine bool bool Record
  | StdLine bool "Binding list" Record

datatype error = WriteError nat

text \<open>
  The world: the heap of dedup maps, the state of every lock, the \<open>lastLogTime\<close> of
  every \<open>ColorHandler\<close> (\<open>None\<close> is the zero time), what each writer has received, which
  writers fail, the handler of \<open>slog.Default()\<close>, and the next free address.
\<close>

record World =
  errorTrackers :: "nat \<Rightarrow> (string \<rightharpoonup> Time)"
  mutexLocked :: "nat \<Rightarrow> bool"
  lastLogTime :: "nat \<Rightarrow> Time option"
  written :: "nat \<Rightarrow> Output list"
  writeFails :: "nat \<Rightarrow> bool"
  slogDefault :: Handler
  nextAddr :: nat

definition Stderr :: nat where "Stderr = 0"
definition LogFile :: nat where "LogFile = 1"

text \<open>\<open>Lock\<close> blocks while the lock is held: \<open>None\<close> is a caller left waiting.\<close>

definition Mutex_Lock :: "nat \<Rightarrow> World \<Rightarrow> World option" where
  "Mutex_Lock m wd =
     (if mutexLocked wd m then None
      else Some (wd\<lparr>mutexLocked := (mutexLocked wd)(m := True)\<rparr>))"

definition Mutex_Unlock :: "nat \<Rightarrow> World \<Rightarrow> World" where
  "Mutex_Unlock m wd = wd\<lparr>mutexLocked := (mutexLocked wd)(m := False)\<rparr>"

subsection \<open>Enabled\<close>

fun Enabled :: "Handler \<Rightarrow> Level \<Rightarrow> bool"
  and Enabled_any :: "Handler list \<Rightarrow> Level \<Rightarrow> bool" where
  "Enabled (Color h) level =
     (level \<ge> (case ch_Level h of None \<Rightarrow> LevelInfo | Some l \<Rightarrow> l))"
| "Enabled (Std h) level =
     (level \<ge> (case sh_Level h of None \<Rightarrow> LevelInfo | Some l \<Rightarrow> l))"
| "Enabled (SmartFilterHandler h inner) level = (level \<ge> minLevel h \<and> Enabled inner level)"
| "Enabled (MultiHandler hs) level = Enabled_any hs level"
| "Enabled_any [] level = False"
| "Enabled_any (h # hs) level = (if Enabled h level then True else Enabled_any hs level)"

subsection \<open>ColorHandler and the standard handlers\<close>

text \<open>
  \<open>ColorHandler.Handle\<close>: under the handler's lock, a blank line when the last record
  is more than 200 ms old, then the record. What reaches the writer is kept as the
  record with the two rendering switches, not as bytes; the results of the writes are
  discarded by the source, so a failing writer receives nothing and \<open>nil\<close> is returned.
\<close>

definition write_out :: "nat \<Rightarrow> Output list \<Rightarrow> World \<Rightarrow> World" where
  "write_out w out wd =
     (if writeFails wd w then wd else wd\<lparr>written := (written wd)(w := written wd w @ out)\<rparr>)"

definition ColorHandler_Handle :: "Time \<Rightarrow> ColorHandler \<Rightarrow> Record \<Rightarrow> World \<Rightarrow> World option" where
  "ColorHandler_Handle now h r wd =
     (case Mutex_Lock (ch_self h) wd of
        None \<Rightarrow> None
      | Some wd1 \<Rightarrow>
          let gap = (\<not> compactMode h
                     \<and> (case lastLogTime wd1 (ch_self h) of
                          None \<Rightarrow> False
                        | Some lastTime \<Rightarrow> now - lastTime > 200 * Millisecond));
              wd2 = write_out (ch_w h) (if gap then [BlankLine] else []) wd1;
              wd3 = wd2\<lparr>lastLogTime := (lastLogTime wd2)(ch_self h := Some now)\<rparr>;
              wd4 = write_out (ch_w h) [ColorLine (compactMode h) (enableHighlight h) r] wd3
          in Some (Mutex_Unlock (ch_self h) wd4))"

definition StdHandler_Handle :: "StdHandler \<Rightarrow> Record \<Rightarrow> World \<Rightarrow> error option \<times> World" where
  "StdHandler_Handle h r wd =
     (if writeFails wd (sh_w h) then (Some (WriteError (sh_w h)), wd)
      else (None, write_out (sh_w h) [StdLine (sh_json h) (sh_bound h) r] wd))"

subsection \<open>SmartFilterHandler\<close>

text \<open>
  The four compiled patterns, as \<open>MatchString\<close> decides them. \<open>MatchDotStar a b s\<close> is
  the search for \<open>a.*b\<close>: \<open>a\<close> somewhere in \<open>s\<close>, then \<open>b\<close> before the next line feed.
\<close>

fun MatchDotStar :: "string \<Rightarrow> string \<Rightarrow> string \<Rightarrow> bool" where
  "MatchDotStar a b [] = (a = [] \<and> b = [])"
| "MatchDotStar a b (c # cs) =
     ((HasPrefix (c # cs) a
       \<and> Contains (takeWhile (\<lambda>x. x \<noteq> CHR 0x0A) (drop (length a) (c # cs))) b)
      \<or> MatchDotStar a b cs)"

definition ginDebugRegex :: "string \<Rightarrow> bool" where
  "ginDebugRegex s = (HasPrefix s ''[GIN-debug]'' \<or> Contains s ''[GIN]'')"

definition cookiePartitionRegex :: "string \<Rightarrow> bool" where
  "cookiePartitionRegex s = MatchDotStar ''could not unmarshal event'' ''CookiePartitionKey'' s"

definition healthCheckRegex :: "string \<Rightarrow> bool" where
  "healthCheckRegex s =
     (Contains s ''/health'' \<or> Contains s ''/ping'' \<or> Contains s ''/status''
      \<or> Contains s ''/metrics'')"

definition chromedpInternalRegex :: "string \<Rightarrow> bool" where
  "chromedpInternalRegex s =
     (Contains s ''chromedp: could not retrieve''
      \<or> MatchDotStar ''context deadline exceeded'' ''chromedp'' s)"

record FilterConfig =
  IgnoreGinDebug :: bool
  IgnoreHealthCheck :: bool
  MinLevel :: Level

definition NewSmartFilterHandler :: "Handler \<Rightarrow> FilterConfig \<Rightarrow> World \<Rightarrow> Handler \<times> World" where
  "NewSmartFilterHandler handler config wd =
     (let a = nextAddr wd in
      (SmartFilterHandler
         \<lparr>ignoreGinDebug = IgnoreGinDebug config,
          ignoreHealthCheck = IgnoreHealthCheck config,
          minLevel = MinLevel config,
          errorTracker = a,
          errorMutex = Suc a,
          errorWindow = 5 * Minute\<rparr> handler,
       wd\<lparr>errorTrackers := (errorTrackers wd)(a := Map.empty),
          mutexLocked := (mutexLocked wd)(Suc a := False),
          nextAddr := Suc (Suc a)\<rparr>))"

definition shouldIgnoreHealthCheck :: "Record \<Rightarrow> bool" where
  "shouldIgnoreHealthCheck r =
     (if healthCheckRegex (Message r) then True
      else list_ex (\<lambda>(key, v). (key = ''path'' \<or> key = ''url'') \<and> healthCheckRegex (Value_String v))
             (Attrs r))"

text \<open>
  \<open>shouldFilterDuplicateError\<close>, with \<open>time.Now()\<close> as \<open>now\<close>: under the lock, drop the
  entries older than the window, then look the message up. The result is whether the
  record is a duplicate, and the world with the map as the call leaves it.
\<close>

definition purge :: "Time \<Rightarrow> Duration \<Rightarrow> (string \<rightharpoonup> Time) \<Rightarrow> (string \<rightharpoonup> Time)" where
  "purge now window m =
     (\<lambda>key. case m key of
               None \<Rightarrow> None
             | Some timestamp \<Rightarrow> if now - timestamp > window then None else Some timestamp)"

definition shouldFilterDuplicateError ::
    "Time \<Rightarrow> SmartFilter \<Rightarrow> string \<Rightarrow> World \<Rightarrow> (bool \<times> World) option" where
  "shouldFilterDuplicateError now h msg wd =
     (case Mutex_Lock (errorMutex h) wd of
        None \<Rightarrow> None
      | Some wd1 \<Rightarrow>
          let m = purge now (errorWindow h) (errorTrackers wd1 (errorTracker h));
              dup = (case m msg of
                       None \<Rightarrow> False
                     | Some lastTime \<Rightarrow> now - lastTime < errorWindow h);
              m' = (if dup then m else m(msg \<mapsto> now));
              wd2 = wd1\<lparr>errorTrackers := (errorTrackers wd1)(errorTracker h := m')\<rparr>
          in Some (dup, Mutex_Unlock (errorMutex h) wd2))"

definition contextErrors :: "string list" where
  "contextErrors =
     [''context canceled'', ''context deadline exceeded'', ''connection reset by peer'',
      ''broken pipe'']"

definition noisyTransient :: "UnicodeLower \<Rightarrow> string \<Rightarrow> bool" where
  "noisyTransient ul msg = list_ex (\<lambda>errMsg. Contains (ToLower ul msg) errMsg) contextErrors"

definition isDuplicateContextError ::
    "UnicodeLower \<Rightarrow> Time \<Rightarrow> SmartFilter \<Rightarrow> string \<Rightarrow> World \<Rightarrow> (bool \<times> World) option" where
  "isDuplicateContextError ul now h msg wd =
     (if noisyTransient ul msg then shouldFilterDuplicateError now h msg wd
      else Some (False, wd))"

text \<open>
  The seven checks of \<open>SmartFilterHandler.Handle\<close> before the record is passed on:
  \<open>Some (True, wd')\<close> when one of them returns \<open>nil\<close> early, \<open>Some (False, wd')\<close> when
  the record is to be passed to the wrapped handler.
\<close>

definition filterRules ::
    "UnicodeLower \<Rightarrow> Time \<Rightarrow> SmartFilter \<Rightarrow> Record \<Rightarrow> World \<Rightarrow> (bool \<times> World) option" where
  "filterRules ul now h r wd =
     (if Level r < minLevel h then Some (True, wd)
      else let msg = Message r in
        if ignoreGinDebug h \<and> ginDebugRegex msg then Some (True, wd)
        else if cookiePartitionRegex msg then Some (True, wd)
        else if chromedpInternalRegex msg then Some (True, wd)
        else if ignoreHealthCheck h \<and> shouldIgnoreHealthCheck r then Some (True, wd)
        else (case isDuplicateContextError ul now h msg wd of
                None \<Rightarrow> None
              | Some (dup, wd1) \<Rightarrow>
                  if dup then Some (True, wd1)
                  else if TrimSpace msg = [] then Some (True, wd1)
                  else Some (False, wd1)))"

subsection \<open>Handle\<close>

text \<open>
  \<open>Handle n now h r wd\<close> runs \<open>h.Handle(ctx, r)\<close> in world \<open>wd\<close>, every \<open>time.Now()\<close> of
  the call reading \<open>now\<close>. \<open>MultiHandler.Handle\<close> reports a member's error through
  \<open>slog.Default().Error\<close>, which calls \<open>Handle\<close> of whatever handler is installed as
  the default, so the calls can nest without bound: \<open>n\<close> bounds the depth of nested
  \<open>Handle\<close> calls, and \<open>None\<close> is a call that does not return (the depth is used up,
  or a lock is never obtained). \<open>dispatch\<close> is the loop over the members. \<open>ul\<close> is the
  Unicode path of \<open>strings.ToLower\<close>, which the duplicate rule reaches through
  \<open>isDuplicateContextError\<close>.
\<close>

definition error_record :: "Time \<Rightarrow> error \<Rightarrow> Record" where
  "error_record now err =
     \<lparr>Time = now, Message = ''Handler error'', Level = LevelError,
      Attrs = [(''error'', ScalarValue (case err of WriteError w \<Rightarrow> ''write failed''))]\<rparr>"

fun Handle ::
    "UnicodeLower \<Rightarrow> nat \<Rightarrow> Time \<Rightarrow> Handler \<Rightarrow> Record \<Rightarrow> World \<Rightarrow> (error option \<times> World) option"
  and dispatch ::
    "UnicodeLower \<Rightarrow> nat \<Rightarrow> Time \<Rightarrow> Handler list \<Rightarrow> Record \<Rightarrow> World \<Rightarrow> World option" where
  "Handle ul 0 now h r wd = None"
| "Handle ul (Suc n) now (Color h) r wd =
     (case ColorHandler_Handle now h r wd of None \<Rightarrow> None | Some wd1 \<Rightarrow> Some (None, wd1))"
| "Handle ul (Suc n) now (Std h) r wd = Some (StdHandler_Handle h r wd)"
| "Handle ul (Suc n) now (SmartFilterHandler h inner) r wd =
     (case filterRules ul now h r wd of
        None \<Rightarrow> None
      | Some (rejected, wd1) \<Rightarrow>
          if rejected then Some (None, wd1) else Handle ul n now inner r wd1)"
| "Handle ul (Suc n) now (MultiHandler hs) r wd =
     (case dispatch ul n now hs r wd of None \<Rightarrow> None | Some wd1 \<Rightarrow> Some (None, wd1))"
| "dispatch ul n now [] r wd = Some wd"
| "dispatch ul n now (h # hs) r wd =
     (if Enabled h (Level r) then
        (case Handle ul n now h (Clone r) wd of
           None \<Rightarrow> None
         | Some (None, wd1) \<Rightarrow> dispatch ul n now hs r wd1
         | Some (Some err, wd1) \<Rightarrow>
             if Enabled (slogDefault wd1) LevelError then
               (case Handle ul n now (slogDefault wd1) (error_record now err) wd1 of
                  None \<Rightarrow> None
                | Some (res, wd2) \<Rightarrow> dispatch ul n now hs r wd2)
             else dispatch ul n now hs r wd1)
      else dispatch ul n now hs r wd)"

subsection \<open>WithAttrs and WithGroup\<close>

text \<open>
  \<open>SmartFilterHandler.WithAttrs\<close> builds a new struct: the map-typed field is copied as
  a reference (\<open>errorTracker\<close> stays the same), the field \<open>errorMutex\<close> of type
  \<open>sync.RWMutex\<close> is copied as a value, so the new struct embeds a lock of its own
  that starts in the state the old one is in.
\<close>

definition derive_filter :: "SmartFilter \<Rightarrow> World \<Rightarrow> SmartFilter \<times> World" where
  "derive_filter h wd =
     (let a = nextAddr wd in
      (h\<lparr>errorMutex := a\<rparr>,
       wd\<lparr>mutexLocked := (mutexLocked wd)(a := mutexLocked wd (errorMutex h)),
          nextAddr := Suc a\<rparr>))"

fun WithAttrs :: "Handler \<Rightarrow> (string \<times> Value) list \<Rightarrow> World \<Rightarrow> Handler \<times> World"
  and WithAttrs_each :: "Handler list \<Rightarrow> (string \<times> Value) list \<Rightarrow> World \<Rightarrow> Handler list \<times> World"
  where
  "WithAttrs (Color h) attrs wd = (Color h, wd)"
| "WithAttrs (Std h) attrs wd = (Std (h\<lparr>sh_bound := sh_bound h @ [BoundAttrs attrs]\<rparr>), wd)"
| "WithAttrs (SmartFilterHandler h inner) attrs wd =
     (case WithAttrs inner attrs wd of
        (inner', wd1) \<Rightarrow>
          (case derive_filter h wd1 of (h', wd2) \<Rightarrow> (SmartFilterHandler h' inner', wd2)))"
| "WithAttrs (MultiHandler hs) attrs wd =
     (case WithAttrs_each hs attrs wd of (hs', wd1) \<Rightarrow> (MultiHandler hs', wd1))"
| "WithAttrs_each [] attrs wd = ([], wd)"
| "WithAttrs_each (h # hs) attrs wd =
     (case WithAttrs h attrs wd of
        (h', wd1) \<Rightarrow> (case WithAttrs_each hs attrs wd1 of (hs', wd2) \<Rightarrow> (h' # hs', wd2)))"

fun WithGroup :: "Handler \<Rightarrow> string \<Rightarrow> World \<Rightarrow> Handler \<times> World"
  and WithGroup_each :: "Handler list \<Rightarrow> string \<Rightarrow> World \<Rightarrow> Handler list \<times> World"
  where
  "WithGroup (Color h) name wd = (Color h, wd)"
| "WithGroup (Std h) name wd = (Std (h\<lparr>sh_bound := sh_bound h @ [BoundGroup name]\<rparr>), wd)"
| "WithGroup (SmartFilterHandler h inner) name wd =
     (case WithGroup inner name wd of
        (inner', wd1) \<Rightarrow>
          (case derive_filter h wd1 of (h', wd2) \<Rightarrow> (SmartFilterHandler h' inner', wd2)))"
| "WithGroup (MultiHandler hs) name wd =
     (case WithGroup_each hs name wd of (hs', wd1) \<Rightarrow> (MultiHandler hs', wd1))"
| "WithGroup_each [] name wd = ([], wd)"
| "WithGroup_each (h # hs) name wd =
     (case WithGroup h name wd of
        (h', wd1) \<Rightarrow> (case WithGroup_each hs name wd1 of (hs', wd2) \<Rightarrow> (h' # hs', wd2)))"


subsection \<open>Construction (createLogger, InitWithDefaults)\<close>

definition NewColorHandler :: "nat \<Rightarrow> Level option \<Rightarrow> World \<Rightarrow> Handler \<times> World" where
  "NewColorHandler w opts wd =
     (let a = nextAddr wd in
      (Color \<lparr>ch_self = a, ch_w = w, ch_Level = opts, enableHighlight = True,
              compactMode = False\<rparr>,
       wd\<lparr>mutexLocked := (mutexLocked wd)(a := False),
          lastLogTime := (lastLogTime wd)(a := None),
          nextAddr := Suc a\<rparr>))"

definition NewColorHandlerWithOptions ::
    "nat \<Rightarrow> Level option \<Rightarrow> bool \<Rightarrow> bool \<Rightarrow> World \<Rightarrow> Handler \<times> World" where
  "NewColorHandlerWithOptions w opts highlight compact wd =
     (case NewColorHandler w opts wd of
        (Color h, wd1) \<Rightarrow> (Color (h\<lparr>enableHighlight := highlight, compactMode := compact\<rparr>), wd1)
      | (h, wd1) \<Rightarrow> (h, wd1))"

definition parseLogLevel :: "string \<Rightarrow> Level" where
  "parseLogLevel levelStr =
     (if levelStr = ''debug'' then LevelDebug
      else if levelStr = ''info'' then LevelInfo
      else if levelStr = ''warn'' \<or> levelStr = ''warning'' then LevelWarn
      else if levelStr = ''error'' then LevelError
      else LevelInfo)"

text \<open>
  \<open>createLogger\<close>: the console handler writes to \<open>os.Stderr\<close>, the file handler to the
  rotating file; \<open>mkdir_ok\<close> says whether \<open>os.MkdirAll\<close> succeeds, and the handler is
  \<open>None\<close> when \<open>createLogger\<close> returns its error.
\<close>

definition createLogger :: "Config \<Rightarrow> bool \<Rightarrow> World \<Rightarrow> Handler option \<times> World" where
  "createLogger cfg mkdir_ok wd =
     (let level = parseLogLevel (Logger_Level (Logger cfg));
          opts = Some level;
          console = Console (Output (Logger cfg));
          file = File (Output (Logger cfg))
      in
        (case (if Console_Enabled console then
                 (case (if Console_Format console = ''color'' then
                          NewColorHandlerWithOptions Stderr opts
                            (KeywordHighlight (Features (Logger cfg))) False wd
                        else if Console_Format console = ''json'' then
                          (Std \<lparr>sh_w = Stderr, sh_Level = opts, sh_json = True, sh_bound = []\<rparr>, wd)
                        else
                          (Std \<lparr>sh_w = Stderr, sh_Level = opts, sh_json = False, sh_bound = []\<rparr>, wd))
                  of (consoleHandler, wdc) \<Rightarrow>
                    (case (if SmartFilter (Features (Logger cfg)) then
                             NewSmartFilterHandler consoleHandler
                               \<lparr>IgnoreGinDebug = True, IgnoreHealthCheck = True, MinLevel = level\<rparr>
                               wdc
                           else (consoleHandler, wdc))
                     of (consoleHandler', wdf) \<Rightarrow> ([consoleHandler'], wdf)))
               else ([], wd))
         of (handlers1, wd1) \<Rightarrow>
           if File_Enabled file \<and> \<not> mkdir_ok then (None, wd1)
           else
             (case (let handlers2 = handlers1 @
                          (if File_Enabled file then
                             [Std \<lparr>sh_w = LogFile, sh_Level = opts,
                                   sh_json = (File_Format file = ''json''), sh_bound = []\<rparr>]
                           else [])
                    in if length handlers2 = 0 then
                         (case NewColorHandler Stderr opts wd1 of (c, wdc) \<Rightarrow> ([c], wdc))
                       else (handlers2, wd1))
              of (handlers, wd2) \<Rightarrow>
                (Some (if length handlers = 1 then handlers ! 0 else MultiHandler handlers), wd2))))"

text \<open>
  \<open>InitWithDefaults\<close>, for the configuration \<open>cfg\<close> that \<open>LoadConfigWithDefaults\<close>
  returned: the logger that \<open>createLogger\<close> builds becomes \<open>slog.Default()\<close>. The first
  component says whether the call returned \<open>nil\<close>.
\<close>

definition InitWithDefaults :: "Config \<Rightarrow> bool \<Rightarrow> World \<Rightarrow> bool \<times> World" where
  "InitWithDefaults cfg mkdir_ok wd =
     (case createLogger cfg mkdir_ok wd of
        (None, wd1) \<Rightarrow> (False, wd1)
      | (Some logger, wd1) \<Rightarrow> (True, wd1\<lparr>slogDefault := logger\<rparr>))"

text \<open>
  The world of a fresh process: nothing allocated or written, every writer working,
  and Go's built-in default handler (text to standard error) installed.
\<close>

definition world0 :: World where
  "world0 =
     \<lparr>errorTrackers = (\<lambda>a. Map.empty),
      mutexLocked = (\<lambda>a. False),
      lastLogTime = (\<lambda>a. None),
      written = (\<lambda>w. []),
      writeFails = (\<lambda>w. False),
      slogDefault = Std \<lparr>sh_w = Stderr, sh_Level = None, sh_json = False, sh_bound = []\<rparr>,
      nextAddr = 0\<rparr>"


section \<open>Keyword and pattern highlighter (package handler)\<close>

text \<open>
  The colour functions of \<open>github.com/fatih/color\<close> that the highlighter uses, by name;
  what they return for a text is not part of this repository and is a parameter
  (\<open>Painter\<close>) below.
\<close>

datatype Paint =
    HiGreenString | HiRedString | HiYellowString | HiBlueString | HiCyanString
  | HiMagentaString | BoldHiWhite | UnderlineCyan | Yellow

definition keywordColors :: "(string \<times> Paint) list" where
  "keywordColors =
     [(''success'', HiGreenString), (''successfully'', HiGreenString), (''loaded'', HiGreenString),
      (''completed'', HiGreenString), (''established'', HiGreenString),
      (''initialized'', HiGreenString), (''enabled'', HiGreenString), (''ok'', HiGreenString),
      (''finished'', HiGreenString), (''resolved'', HiGreenString), (''found'', HiGreenString),
      (''true'', HiGreenString), (''connected'', HiGreenString),
      (''error'', HiRedString), (''failed'', HiRedString), (''fail'', HiRedString),
      (''invalid'', HiRedString), (''unable'', HiRedString), (''cannot'', HiRedString),
      (''denied'', HiRedString), (''rejected'', HiRedString), (''timeout'', HiRedString),
      (''panic'', HiRedString), (''false'', HiRedString), (''disconnected'', HiRedString),
      (''crashed'', HiRedString),
      (''warn'', HiYellowString), (''warning'', HiYellowString), (''deprecated'', HiYellowString),
      (''fallback'', HiYellowString), (''skipping'', HiYellowString), (''missing'', HiYellowString),
      (''empty'', HiYellowString), (''ignored'', HiYellowString), (''retrying'', HiYellowString),
      (''info'', HiBlueString), (''request'', HiBlueString), (''response'', HiBlueString),
      (''starting'', HiBlueString), (''stopping'', HiBlueString), (''connecting'', HiBlueString),
      (''sending'', HiBlueString), (''receiving'', HiBlueString), (''processing'', HiBlueString),
      (''get'', HiCyanString), (''post'', HiCyanString), (''put'', HiCyanString),
      (''delete'', HiCyanString), (''patch'', HiCyanString),
      (''debug'', HiMagentaString), (''parsing'', HiMagentaString),
      (''generating'', HiMagentaString), (''writing'', HiMagentaString),
      (''reading'', HiMagentaString), (''database'', HiMagentaString), (''cache'', HiMagentaString),
      (''router'', HiMagentaString), (''server'', HiMagentaString), (''client'', HiMagentaString),
      (''user'', HiMagentaString), (''session'', HiMagentaString)]"

text \<open>
  The compiled patterns: \<open>keywordRegexes[keyword]\<close> (the case-insensitive whole-word
  pattern that \<open>init\<close> compiles for every key of \<open>keywordColors\<close>), \<open>numericRegex\<close>,
  \<open>urlRegex\<close> and \<open>ipRegex\<close>. Matching is done by Go's \<open>regexp\<close> package, a parameter
  here: \<open>rx re src\<close> lists the successive matches of \<open>re\<close> in \<open>src\<close> as pairs of
  start and end offsets.
\<close>

datatype Pattern = keywordRegexes string | numericRegex | urlRegex | ipRegex

type_synonym Regexp = "Pattern \<Rightarrow> string \<Rightarrow> (nat \<times> nat) list"
type_synonym Painter = "Paint \<Rightarrow> string \<Rightarrow> string"

text \<open>
  \<open>ReplaceAllStringFunc\<close> as the \<open>regexp\<close> package builds its result: the text before
  each match, the replacement of the match (left out for an empty match right after
  the previous one), and at the end the text after the last match.
\<close>

fun replaceAll :: "string \<Rightarrow> nat \<Rightarrow> (nat \<times> nat) list \<Rightarrow> (string \<Rightarrow> string) \<Rightarrow> string" where
  "replaceAll src lastMatchEnd [] repl = drop lastMatchEnd src"
| "replaceAll src lastMatchEnd ((a0, a1) # ms) repl =
     take (a0 - lastMatchEnd) (drop lastMatchEnd src)
     @ (if a1 > lastMatchEnd \<or> a0 = 0 then repl (take (a1 - a0) (drop a0 src)) else [])
     @ replaceAll src a1 ms repl"

definition ReplaceAllStringFunc :: "Regexp \<Rightarrow> Pattern \<Rightarrow> string \<Rightarrow> (string \<Rightarrow> string) \<Rightarrow> string" where
  "ReplaceAllStringFunc rx re src repl = replaceAll src 0 (rx re src) repl"

text \<open>
  \<open>colorize\<close>. The first pass ranges over the map \<open>keywordColors\<close>, in an order Go does
  not fix: \<open>order\<close> is the order of that run, a list of the entries of the table.
\<close>

definition colorize :: "Regexp \<Rightarrow> Painter \<Rightarrow> (string \<times> Paint) list \<Rightarrow> string \<Rightarrow> bool \<Rightarrow> string" where
  "colorize rx paint order msg highlight =
     (if \<not> highlight then msg
      else
        let msg1 = foldl (\<lambda>m (keyword, colorFunc).
                            ReplaceAllStringFunc rx (keywordRegexes keyword) m (paint colorFunc))
                     msg order;
            msg2 = ReplaceAllStringFunc rx numericRegex msg1 (paint BoldHiWhite);
            msg3 = ReplaceAllStringFunc rx urlRegex msg2 (paint UnderlineCyan);
            msg4 = ReplaceAllStringFunc rx ipRegex msg3 (paint Yellow)
        in msg4)"


section \<open>Properties of the privacy transforms\<close>

lemma Split_test_email:
  "Split ''test@example.com'' CHR ''@'' = [''test'', ''example.com'']"
  by simp

text \<open>
  C7. With email masking disabled in the loaded configuration, \<open>MaskEmail\<close> returns
  every input unchanged; the configuration of \<open>setDefaults\<close> is such a configuration, so
  \<open>MaskEmail("a@b.com")\<close> is \<open>"a@b.com"\<close> there. With email masking enabled,
  \<open>MaskEmail("test@example.com")\<close> is \<open>"te**@example.com"\<close>.
\<close>

theorem MaskEmail_disabled_identity_enabled_example:
  "(\<not> EnableEmailMask (privacy c) \<longrightarrow> MaskEmail (Some c) email = email)
   \<and> \<not> EnableEmailMask (privacy defaultConfig)
   \<and> MaskEmail (Some defaultConfig) ''a@b.com'' = ''a@b.com''
   \<and> (EnableEmailMask (privacy c) \<longrightarrow>
        MaskEmail (Some c) ''test@example.com'' = ''te**@example.com'')"
proof -
  have off: "\<not> EnableEmailMask (privacy c) \<Longrightarrow> MaskEmail (Some c) email = email" for c email
    by (simp add: MaskEmail_def)
  have dflt: "\<not> EnableEmailMask (privacy defaultConfig)"
    by (simp add: privacy_def defaultConfig_def)
  have on: "EnableEmailMask (privacy c) \<Longrightarrow>
      MaskEmail (Some c) ''test@example.com'' = ''te**@example.com''"
    by (simp add: MaskEmail_def Split_test_email)
  from off dflt on show ?thesis by blast
qed

definition maskingConfig :: Config where
  "maskingConfig =
     defaultConfig\<lparr>Logger := (Logger defaultConfig)\<lparr>Features :=
       (Features (Logger defaultConfig))\<lparr>Privacy :=
         \<lparr>EnableEmailMask = True, EnablePhoneMask = True, EnableInputSanitize = True\<rparr>\<rparr>\<rparr>\<rparr>"

lemma privacy_maskingConfig:
  "privacy maskingConfig =
     \<lparr>EnableEmailMask = True, EnablePhoneMask = True, EnableInputSanitize = True\<rparr>"
  by (simp add: privacy_def maskingConfig_def)

lemma privacy_defaultConfig:
  "privacy defaultConfig =
     \<lparr>EnableEmailMask = False, EnablePhoneMask = False, EnableInputSanitize = False\<rparr>"
  by (simp add: privacy_def defaultConfig_def)

theorem MaskEmail_disabled_identity_enabled_example_witness:
  "MaskEmail (Some defaultConfig) ''test@example.com'' = ''test@example.com''
   \<and> MaskEmail (Some maskingConfig) ''test@example.com'' = ''te**@example.com''"
  using MaskEmail_disabled_identity_enabled_example
          [of defaultConfig "''test@example.com''"]
        MaskEmail_disabled_identity_enabled_example
          [of maskingConfig "''test@example.com''"]
  by (simp add: privacy_maskingConfig privacy_defaultConfig)

lemma Split_absent: "sep \<notin> set s \<Longrightarrow> Split s sep = [s]"
  by (induction s) auto

lemma Split_once:
  "sep \<notin> set u \<Longrightarrow> sep \<notin> set d \<Longrightarrow> Split (u @ sep # d) sep = [u, d]"
  by (induction u) (auto simp add: Split_absent)

lemma ReplaceAll_absent: "old \<notin> set s \<Longrightarrow> ReplaceAll s old new = s"
  by (induction s) (auto simp add: ReplaceAll_def)

lemma ReplaceAll_removes: "old \<notin> set new \<Longrightarrow> old \<notin> set (ReplaceAll s old new)"
  by (induction s) (simp_all add: ReplaceAll_def)

lemma ReplaceAll_keeps_out:
  "c \<notin> set s \<Longrightarrow> c \<notin> set new \<Longrightarrow> c \<notin> set (ReplaceAll s old new)"
  by (induction s) (simp_all add: ReplaceAll_def)

lemma SanitizeUserInput_nil_clean:
  "CHR 0x0A \<notin> set (SanitizeUserInput None s)
   \<and> CHR 0x0D \<notin> set (SanitizeUserInput None s)
   \<and> CHR 0x09 \<notin> set (SanitizeUserInput None s)"
proof -
  define s1 where "s1 = ReplaceAll s (CHR 0x0A) [CHR 0x5C, CHR ''n'']"
  define s2 where "s2 = ReplaceAll s1 (CHR 0x0D) [CHR 0x5C, CHR ''r'']"
  define s3 where "s3 = ReplaceAll s2 (CHR 0x09) [CHR 0x5C, CHR ''t'']"
  have a1: "CHR 0x0A \<notin> set s1" unfolding s1_def by (rule ReplaceAll_removes) simp
  have a2: "CHR 0x0A \<notin> set s2" unfolding s2_def using a1 by (rule ReplaceAll_keeps_out) simp
  have a3: "CHR 0x0A \<notin> set s3" unfolding s3_def using a2 by (rule ReplaceAll_keeps_out) simp
  have b2: "CHR 0x0D \<notin> set s2" unfolding s2_def by (rule ReplaceAll_removes) simp
  have b3: "CHR 0x0D \<notin> set s3" unfolding s3_def using b2 by (rule ReplaceAll_keeps_out) simp
  have c3: "CHR 0x09 \<notin> set s3" unfolding s3_def by (rule ReplaceAll_removes) simp
  have r: "SanitizeUserInput None s
      = (if length s3 > 1000 then take 1000 s3 @ ''...(truncated)'' else s3)"
    by (simp add: SanitizeUserInput_def Let_def s1_def s2_def s3_def)
  have t: "c \<notin> set s3 \<Longrightarrow> c \<notin> set (take 1000 s3)" for c
    by (auto dest: in_set_takeD)
  show ?thesis using a3 b3 c3 t [OF a3] t [OF b3] t [OF c3] by (simp add: r)
qed

lemma SanitizeUserInput_nil_identity:
  assumes "CHR 0x0A \<notin> set s" "CHR 0x0D \<notin> set s" "CHR 0x09 \<notin> set s" "length s \<le> 1000"
  shows "SanitizeUserInput None s = s"
  using assms by (simp add: SanitizeUserInput_def Let_def ReplaceAll_absent)

lemma SanitizeUserInput_nil_truncates:
  assumes "CHR 0x0A \<notin> set s" "CHR 0x0D \<notin> set s" "CHR 0x09 \<notin> set s" "1000 < length s"
  shows "SanitizeUserInput None s = take 1000 s @ ''...(truncated)''"
  using assms by (simp add: SanitizeUserInput_def Let_def ReplaceAll_absent)

lemma MaskEmail_nil_no_at:
  assumes "CHR ''@'' \<notin> set s" "4 < length s"
  shows "MaskEmail None s = take 2 s @ Repeat ''*'' (length s - 4) @ drop (length s - 2) s"
  using assms by (auto simp add: MaskEmail_def Split_absent maskString_def)

lemma MaskEmail_nil_one_at:
  assumes "CHR ''@'' \<notin> set u" "CHR ''@'' \<notin> set d"
  shows "MaskEmail None (u @ ''@'' @ d) =
     (if length u \<le> 2 then u @ ''@'' @ d
      else if length u \<le> 4 then take 2 u @ ''**@'' @ d
      else take 2 u @ Repeat ''*'' (length u - 2) @ ''@'' @ d)"
  using assms by (simp add: MaskEmail_def Split_once Let_def)

lemma MaskPhone_nil_eleven:
  assumes "length s = 11" "\<not> HasPrefix s ''+''"
  shows "MaskPhone None s = take 3 s @ ''****'' @ drop 7 s"
  using assms by (auto simp add: MaskPhone_def)

text \<open>
  C10. While no configuration is loaded (\<open>GlobalConfig\<close> is \<open>nil\<close>) each of the three
  privacy transforms returns, on every input, what it returns under a configuration whose
  toggle is enabled, although the loaded default configuration disables all three. So the
  masking or sanitising branch runs: an address with more than 4 bytes before its only
  \<open>@\<close> keeps 2 of them and gets a star for each of the others; a text of more than 4
  bytes without \<open>@\<close> keeps its first 2 and its last 2 bytes around stars (\<open>maskString\<close>);
  a phone number of 11 bytes without a leading \<open>+\<close> gets \<open>****\<close> for its 4th to 7th
  byte; the sanitised text holds no line feed, carriage return or tab, and a text
  without them that is longer than 1000 bytes is cut to its first 1000 bytes followed by
  \<open>...(truncated)\<close>. The branch does
  not always change its input: \<open>MaskEmail\<close> returns an address with at most 2 bytes before
  its only \<open>@\<close> as it is, and \<open>SanitizeUserInput\<close> returns a text of at most 1000 bytes
  without those three control characters as it is. The last conjuncts set the result
  without a configuration beside the result under the default configuration, on one
  input each.
\<close>

theorem privacy_transforms_nil_config_as_enabled:
  "(EnableEmailMask (privacy c) \<longrightarrow> MaskEmail None s = MaskEmail (Some c) s)
   \<and> (EnablePhoneMask (privacy c) \<longrightarrow> MaskPhone None s = MaskPhone (Some c) s)
   \<and> (EnableInputSanitize (privacy c) \<longrightarrow>
        SanitizeUserInput None s = SanitizeUserInput (Some c) s)
   \<and> (CHR ''@'' \<notin> set u \<and> CHR ''@'' \<notin> set d \<and> 4 < length u \<longrightarrow>
        MaskEmail None (u @ ''@'' @ d) = take 2 u @ Repeat ''*'' (length u - 2) @ ''@'' @ d)
   \<and> (CHR ''@'' \<notin> set email \<and> 4 < length email \<longrightarrow>
        MaskEmail None email
          = take 2 email @ Repeat ''*'' (length email - 4) @ drop (length email - 2) email)
   \<and> (length phone = 11 \<and> \<not> HasPrefix phone ''+'' \<longrightarrow>
        MaskPhone None phone = take 3 phone @ ''****'' @ drop 7 phone)
   \<and> CHR 0x0A \<notin> set (SanitizeUserInput None input)
   \<and> CHR 0x0D \<notin> set (SanitizeUserInput None input)
   \<and> CHR 0x09 \<notin> set (SanitizeUserInput None input)
   \<and> (CHR ''@'' \<notin> set u \<and> CHR ''@'' \<notin> set d \<and> length u \<le> 2 \<longrightarrow>
        MaskEmail None (u @ ''@'' @ d) = u @ ''@'' @ d)
   \<and> (CHR 0x0A \<notin> set input \<and> CHR 0x0D \<notin> set input \<and> CHR 0x09 \<notin> set input
        \<and> length input \<le> 1000 \<longrightarrow> SanitizeUserInput None input = input)
   \<and> (CHR 0x0A \<notin> set input \<and> CHR 0x0D \<notin> set input \<and> CHR 0x09 \<notin> set input
        \<and> 1000 < length input \<longrightarrow>
        SanitizeUserInput None input = take 1000 input @ ''...(truncated)'')
   \<and> MaskEmail None ''test@example.com'' = ''te**@example.com''
   \<and> MaskEmail (Some defaultConfig) ''test@example.com'' = ''test@example.com''
   \<and> MaskPhone None ''13812345678'' = ''138****5678''
   \<and> MaskPhone None ''+8613812345678'' = ''+86****5678''
   \<and> MaskPhone None ''12345'' = ''12***''
   \<and> MaskPhone (Some defaultConfig) ''13812345678'' = ''13812345678''
   \<and> SanitizeUserInput None [CHR ''a'', CHR 0x0A, CHR ''b''] = [CHR ''a'', CHR 0x5C, CHR ''n'', CHR ''b'']
   \<and> SanitizeUserInput (Some defaultConfig) [CHR ''a'', CHR 0x0A, CHR ''b'']
       = [CHR ''a'', CHR 0x0A, CHR ''b'']"
proof -
  have e: "EnableEmailMask (privacy c) \<Longrightarrow> MaskEmail None s = MaskEmail (Some c) s"
    by (simp add: MaskEmail_def)
  have p: "EnablePhoneMask (privacy c) \<Longrightarrow> MaskPhone None s = MaskPhone (Some c) s"
    by (simp add: MaskPhone_def)
  have i: "EnableInputSanitize (privacy c) \<Longrightarrow>
      SanitizeUserInput None s = SanitizeUserInput (Some c) s"
    by (simp add: SanitizeUserInput_def)
  have long: "CHR ''@'' \<notin> set u \<and> CHR ''@'' \<notin> set d \<and> 4 < length u \<longrightarrow>
      MaskEmail None (u @ ''@'' @ d) = take 2 u @ Repeat ''*'' (length u - 2) @ ''@'' @ d"
    using MaskEmail_nil_one_at [of u d] by simp
  have short: "CHR ''@'' \<notin> set u \<and> CHR ''@'' \<notin> set d \<and> length u \<le> 2 \<longrightarrow>
      MaskEmail None (u @ ''@'' @ d) = u @ ''@'' @ d"
    using MaskEmail_nil_one_at [of u d] by simp
  have noat: "CHR ''@'' \<notin> set email \<and> 4 < length email \<longrightarrow>
      MaskEmail None email
        = take 2 email @ Repeat ''*'' (length email - 4) @ drop (length email - 2) email"
    using MaskEmail_nil_no_at [of email] by blast
  have eleven: "length phone = 11 \<and> \<not> HasPrefix phone ''+'' \<longrightarrow>
      MaskPhone None phone = take 3 phone @ ''****'' @ drop 7 phone"
    using MaskPhone_nil_eleven [of phone] by blast
  note clean = SanitizeUserInput_nil_clean [of input]
  have same: "CHR 0x0A \<notin> set input \<and> CHR 0x0D \<notin> set input \<and> CHR 0x09 \<notin> set input
      \<and> length input \<le> 1000 \<longrightarrow> SanitizeUserInput None input = input"
    using SanitizeUserInput_nil_identity [of input] by blast
  have cut: "CHR 0x0A \<notin> set input \<and> CHR 0x0D \<notin> set input \<and> CHR 0x09 \<notin> set input
      \<and> 1000 < length input \<longrightarrow>
      SanitizeUserInput None input = take 1000 input @ ''...(truncated)''"
    using SanitizeUserInput_nil_truncates [of input] by blast
  have e1: "MaskEmail None ''test@example.com'' = ''te**@example.com''"
    by (simp add: MaskEmail_def Split_test_email)
  have e2: "MaskEmail (Some defaultConfig) ''test@example.com'' = ''test@example.com''"
    by (simp add: MaskEmail_def privacy_defaultConfig)
  have p1: "MaskPhone None ''13812345678'' = ''138****5678''"
    by (simp add: MaskPhone_def HasPrefix_def)
  have p3: "MaskPhone None ''+8613812345678'' = ''+86****5678''"
    by (simp add: MaskPhone_def HasPrefix_def)
  have p4: "MaskPhone None ''12345'' = ''12***''"
    by (simp add: MaskPhone_def)
  have p2: "MaskPhone (Some defaultConfig) ''13812345678'' = ''13812345678''"
    by (simp add: MaskPhone_def privacy_defaultConfig)
  have i1: "SanitizeUserInput None [CHR ''a'', CHR 0x0A, CHR ''b'']
      = [CHR ''a'', CHR 0x5C, CHR ''n'', CHR ''b'']"
    by (simp add: SanitizeUserInput_def ReplaceAll_def)
  have i2: "SanitizeUserInput (Some defaultConfig) [CHR ''a'', CHR 0x0A, CHR ''b'']
      = [CHR ''a'', CHR 0x0A, CHR ''b'']"
    by (simp add: SanitizeUserInput_def privacy_defaultConfig)
  from e p i long short noat eleven clean same cut e1 e2 p1 p2 p3 p4 i1 i2 show ?thesis by blast
qed

theorem privacy_transforms_nil_config_as_enabled_witness:
  "MaskEmail None ''very.long.email@example.com'' = ''ve*************@example.com''
   \<and> MaskEmail (Some maskingConfig) ''very.long.email@example.com''
       = ''ve*************@example.com''
   \<and> MaskEmail None ''invalid-email'' = ''in*********il''
   \<and> MaskEmail None ''xy@example.org'' = ''xy@example.org''
   \<and> MaskPhone None ''13912345678'' = ''139****5678''
   \<and> MaskPhone None ''+8613812345678'' = MaskPhone (Some maskingConfig) ''+8613812345678''
   \<and> SanitizeUserInput None ''plain words'' = ''plain words''
   \<and> SanitizeUserInput (Some maskingConfig) ''plain words'' = ''plain words''
   \<and> SanitizeUserInput None (replicate 1001 CHR ''a'')
       = replicate 1000 CHR ''a'' @ ''...(truncated)''"
proof -
  note t = privacy_transforms_nil_config_as_enabled
  have long: "MaskEmail None ''very.long.email@example.com'' = ''ve*************@example.com''"
    using t [where u = "''very.long.email''" and d = "''example.com''"]
    by (simp add: Repeat_def numeral_eq_Suc)
  have on: "MaskEmail None ''very.long.email@example.com''
      = MaskEmail (Some maskingConfig) ''very.long.email@example.com''"
    using t [where c = maskingConfig and s = "''very.long.email@example.com''"]
    by (simp add: privacy_maskingConfig)
  have noat: "MaskEmail None ''invalid-email'' = ''in*********il''"
    using t [where email = "''invalid-email''"] by (simp add: Repeat_def numeral_eq_Suc)
  have short: "MaskEmail None ''xy@example.org'' = ''xy@example.org''"
    using t [where u = "''xy''" and d = "''example.org''"] by simp
  have eleven: "MaskPhone None ''13912345678'' = ''139****5678''"
    using t [where phone = "''13912345678''"] by (simp add: HasPrefix_def)
  have plus: "MaskPhone None ''+8613812345678'' = MaskPhone (Some maskingConfig) ''+8613812345678''"
    using t [where c = maskingConfig and s = "''+8613812345678''"]
    by (simp add: privacy_maskingConfig)
  have same: "SanitizeUserInput None ''plain words'' = ''plain words''"
    using t [where input = "''plain words''"] by simp
  have san: "SanitizeUserInput None ''plain words''
      = SanitizeUserInput (Some maskingConfig) ''plain words''"
    using t [where c = maskingConfig and s = "''plain words''"]
    by (simp add: privacy_maskingConfig)
  have cut: "SanitizeUserInput None (replicate 1001 CHR ''a'')
      = replicate 1000 CHR ''a'' @ ''...(truncated)''"
    using t [where input = "replicate 1001 CHR ''a''"] by simp
  from long on noat short eleven plus same san cut show ?thesis by simp
qed

text \<open>
  Without a configuration the address \<open>a@b.com\<close> and the text \<open>normal text\<close>, both
  non-empty, come back unchanged: the masking branch of \<open>MaskEmail\<close> leaves a user name of
  one byte alone, and there is nothing for \<open>SanitizeUserInput\<close> to escape or to cut.
\<close>

theorem privacy_transforms_nil_config_unchanged_counterexample:
  "''a@b.com'' \<noteq> [] \<and> MaskEmail None ''a@b.com'' = ''a@b.com''
   \<and> ''normal text'' \<noteq> [] \<and> SanitizeUserInput None ''normal text'' = ''normal text''"
  by (simp add: MaskEmail_def SanitizeUserInput_def ReplaceAll_def)


section \<open>Properties of the request middleware\<close>

lemma getLogLevelForStatus_cases:
  "getLogLevelForStatus status =
     (if status \<ge> 500 then LevelError else if status \<ge> 400 then LevelWarn else LevelInfo)"
  by (simp add: getLogLevelForStatus_def)

lemma prepareBodyForLogging_returns:
  "0 \<le> maxSize \<Longrightarrow> \<exists>b. prepareBodyForLogging compact bodyBytes maxSize = Some b"
  by (simp add: prepareBodyForLogging_def Let_def)

lemma Header_Get_canonical_key:
  "Header_Get [(''X-Request-Id'', [''r-1''])] ''X-Request-ID'' = ''r-1''"
  by (simp add: Header_Get_def CanonicalMIMEHeaderKey_def validHeaderFieldByte_def
      upper_byte_def lower_byte_def)

text \<open>
  Sample requests and a sample environment. The header names of the requests are ASCII,
  so \<open>strings.ToLower\<close> folds them on its byte path and \<open>unicodeLower\<close> is not consulted.
\<close>

definition healthz_request :: Request where
  "healthz_request =
     \<lparr>Method = ''GET'', Path = ''/healthz'', RawQuery = [], Header = [], Body = None,
      UserAgent = ''curl''\<rparr>"

definition users_request :: Request where
  "users_request =
     \<lparr>Method = ''POST'', Path = ''/api/v1/users'', RawQuery = [],
      Header = [(''Content-Type'', [''application/json''])], Body = Some ''{}'',
      UserAgent = ''curl''\<rparr>"

definition plain_env :: GinEnv where
  "plain_env = \<lparr>latency = 1000, clientIP = ''10.0.0.1'', debugEnabled = False,
                 json_compact = (\<lambda>s. None), unicodeLower = (\<lambda>s. s)\<rparr>"

definition outcome_of :: "int \<Rightarrow> Outcome" where
  "outcome_of st = \<lparr>Status = st, Size = 2, CacheStatus = None, Errors = []\<rparr>"

text \<open>
  C6 as stated fails: the skip test is \<open>strings.HasPrefix(path, skipPath)\<close>, so a path
  that is not a configured skip path but begins with one is skipped as well. Under the
  default configuration \<open>/healthz\<close> is no skip path, and the middleware emits nothing.
\<close>

theorem middleware_skips_by_prefix_counterexample:
  "Path healthz_request \<notin> set (SkipPaths DefaultGinMiddlewareConfig)
   \<and> GinMiddlewareWithConfig DefaultGinMiddlewareConfig plain_env healthz_request
        (outcome_of 200) = Some []"
  by (simp add: GinMiddlewareWithConfig_def DefaultGinMiddlewareConfig_def healthz_request_def
      HasPrefix_def)

text \<open>
  C6, amended. For every request whose path does not begin with any configured skip
  path (and a body size cap that is not negative), the middleware makes exactly one
  \<open>slog.LogAttrs\<close> call, with message \<open>HTTP Request\<close>, the attribute \<open>status\<close> set to the
  response status, and the level chosen by the status: error from 500 on, warn from 400
  to 499, info otherwise; so 201 gives info, 404 warn and 503 error.
\<close>

theorem middleware_emits_one_record_by_status:
  assumes "\<not> list_ex (\<lambda>skipPath. HasPrefix (Path req) skipPath) (SkipPaths cfg)"
    and "0 \<le> MaxBodySize cfg"
  shows "(\<exists>attrs. GinMiddlewareWithConfig cfg env req out
            = Some [(getLogLevelForStatus (Status out), ''HTTP Request'', attrs)]
          \<and> (''status'', IntAttr (Status out)) \<in> set attrs)
       \<and> getLogLevelForStatus (Status out)
           = (if Status out \<ge> 500 then LevelError
              else if Status out \<ge> 400 then LevelWarn else LevelInfo)
       \<and> getLogLevelForStatus 201 = LevelInfo
       \<and> getLogLevelForStatus 404 = LevelWarn
       \<and> getLogLevelForStatus 503 = LevelError"
proof -
  have ret: "(prepareBodyForLogging (json_compact env) bb (MaxBodySize cfg) = None) = False"
    for bb
    using prepareBodyForLogging_returns [OF assms(2), of "json_compact env" bb] by auto
  have one: "\<exists>attrs. GinMiddlewareWithConfig cfg env req out
            = Some [(getLogLevelForStatus (Status out), ''HTTP Request'', attrs)]
          \<and> (''status'', IntAttr (Status out)) \<in> set attrs"
    using assms(1)
    by (auto simp add: GinMiddlewareWithConfig_def Let_def ret split: option.splits)
  have lv: "getLogLevelForStatus 201 = LevelInfo \<and> getLogLevelForStatus 404 = LevelWarn
      \<and> getLogLevelForStatus 503 = LevelError"
    by (simp add: getLogLevelForStatus_cases)
  show ?thesis
    using one lv by (simp add: getLogLevelForStatus_cases)
qed

theorem middleware_emits_one_record_by_status_witness:
  "(\<exists>attrs. GinMiddlewareWithConfig DefaultGinMiddlewareConfig plain_env users_request
       (outcome_of 201) = Some [(LevelInfo, ''HTTP Request'', attrs)]
      \<and> (''status'', IntAttr 201) \<in> set attrs)
   \<and> (\<exists>attrs. GinMiddlewareWithConfig DefaultGinMiddlewareConfig plain_env users_request
       (outcome_of 404) = Some [(LevelWarn, ''HTTP Request'', attrs)])
   \<and> (\<exists>attrs. GinMiddlewareWithConfig DefaultGinMiddlewareConfig plain_env users_request
       (outcome_of 503) = Some [(LevelError, ''HTTP Request'', attrs)])"
proof -
  have skip: "\<not> list_ex (\<lambda>skipPath. HasPrefix (Path users_request) skipPath)
      (SkipPaths DefaultGinMiddlewareConfig)"
    by (simp add: DefaultGinMiddlewareConfig_def users_request_def HasPrefix_def)
  have cap: "0 \<le> MaxBodySize DefaultGinMiddlewareConfig"
    by (simp add: DefaultGinMiddlewareConfig_def)
  have st: "Status (outcome_of n) = n" for n
    by (simp add: outcome_of_def)
  have a: "\<exists>attrs. GinMiddlewareWithConfig DefaultGinMiddlewareConfig plain_env users_request
       (outcome_of 201) = Some [(LevelInfo, ''HTTP Request'', attrs)]
      \<and> (''status'', IntAttr 201) \<in> set attrs"
    using middleware_emits_one_record_by_status [OF skip cap, of plain_env "outcome_of 201"]
    by (simp add: st getLogLevelForStatus_cases)
  have b: "\<exists>attrs. GinMiddlewareWithConfig DefaultGinMiddlewareConfig plain_env users_request
       (outcome_of 404) = Some [(LevelWarn, ''HTTP Request'', attrs)]"
    using middleware_emits_one_record_by_status [OF skip cap, of plain_env "outcome_of 404"]
    by (auto simp add: st getLogLevelForStatus_cases)
  have c: "\<exists>attrs. GinMiddlewareWithConfig DefaultGinMiddlewareConfig plain_env users_request
       (outcome_of 503) = Some [(LevelError, ''HTTP Request'', attrs)]"
    using middleware_emits_one_record_by_status [OF skip cap, of plain_env "outcome_of 503"]
    by (auto simp add: st getLogLevelForStatus_cases)
  from a b c show ?thesis by blast
qed


section \<open>Properties of the filtering handler\<close>

text \<open>The checks of \<open>Handle\<close> that come before the duplicate rule let the record pass.\<close>

definition passesEarlierRules :: "SmartFilter \<Rightarrow> Record \<Rightarrow> bool" where
  "passesEarlierRules h r =
     (minLevel h \<le> Level r
      \<and> (ignoreGinDebug h \<longrightarrow> \<not> ginDebugRegex (Message r))
      \<and> \<not> cookiePartitionRegex (Message r)
      \<and> \<not> chromedpInternalRegex (Message r)
      \<and> (ignoreHealthCheck h \<longrightarrow> \<not> shouldIgnoreHealthCheck r))"

definition space_bytes :: "char set" where
  "space_bytes = ascii_space \<union> general_punctuation_space
      \<union> {CHR 0xC2, CHR 0xA0, CHR 0xE1, CHR 0x9A, CHR 0xE2, CHR 0x9F, CHR 0xE3}"

lemma leading_space_bytes:
  "x \<in> set (take (leading_space s) s) \<Longrightarrow> x \<in> space_bytes"
  unfolding leading_space_def space_bytes_def
  by (auto split: list.splits if_splits simp add: general_punctuation_space_def)

lemma trailing_space_bytes:
  "x \<in> set (take (trailing_space s) s) \<Longrightarrow> x \<in> space_bytes"
  unfolding trailing_space_def space_bytes_def
  by (auto split: list.splits if_splits simp add: general_punctuation_space_def)

lemma trim_left_keeps:
  "c \<in> set s \<Longrightarrow> c \<notin> space_bytes \<Longrightarrow> c \<in> set (trim_left s)"
proof (induction s rule: trim_left.induct)
  case (1 s)
  show ?case
  proof (cases "leading_space s = 0")
    case True
    then show ?thesis using "1.prems" by (simp add: trim_left.simps [of s])
  next
    case False
    have "c \<in> set (take (leading_space s) s) \<union> set (drop (leading_space s) s)"
      using "1.prems"(1) by (metis append_take_drop_id set_append)
    moreover have "c \<notin> set (take (leading_space s) s)"
      using leading_space_bytes [of c s] "1.prems"(2) by auto
    ultimately have "c \<in> set (drop (leading_space s) s)" by blast
    then have "c \<in> set (trim_left (drop (leading_space s) s))"
      using "1.IH" False "1.prems"(2) by blast
    then show ?thesis using False by (simp add: trim_left.simps [of s])
  qed
qed

lemma trim_right_rev_keeps:
  "c \<in> set s \<Longrightarrow> c \<notin> space_bytes \<Longrightarrow> c \<in> set (trim_right_rev s)"
proof (induction s rule: trim_right_rev.induct)
  case (1 s)
  show ?case
  proof (cases "trailing_space s = 0")
    case True
    then show ?thesis using "1.prems" by (simp add: trim_right_rev.simps [of s])
  next
    case False
    have "c \<in> set (take (trailing_space s) s) \<union> set (drop (trailing_space s) s)"
      using "1.prems"(1) by (metis append_take_drop_id set_append)
    moreover have "c \<notin> set (take (trailing_space s) s)"
      using trailing_space_bytes [of c s] "1.prems"(2) by auto
    ultimately have "c \<in> set (drop (trailing_space s) s)" by blast
    then have "c \<in> set (trim_right_rev (drop (trailing_space s) s))"
      using "1.IH" False "1.prems"(2) by blast
    then show ?thesis using False by (simp add: trim_right_rev.simps [of s])
  qed
qed

lemma TrimSpace_keeps:
  assumes "c \<in> set s" and "c \<notin> space_bytes"
  shows "TrimSpace s \<noteq> []"
proof -
  have "c \<in> set (trim_left s)"
    using assms by (rule trim_left_keeps)
  then have "c \<in> set (rev (trim_left s))"
    by simp
  then have "c \<in> set (trim_right_rev (rev (trim_left s)))"
    using assms(2) by (rule trim_right_rev_keeps)
  then have "trim_right_rev (rev (trim_left s)) \<noteq> []"
    by auto
  then show ?thesis
    by (simp add: TrimSpace_def)
qed

lemma Contains_head:
  "Contains s (c # p) \<Longrightarrow> c \<in> set s"
proof (induction s)
  case Nil
  then show ?case by simp
next
  case (Cons a s)
  then show ?case by (auto simp add: HasPrefix_def)
qed

lemma lower_byte_cb:
  assumes "lower_byte y = CHR ''c'' \<or> lower_byte y = CHR ''b''"
  shows "y \<notin> space_bytes"
proof -
  have "y \<in> {CHR ''c'', CHR ''C'', CHR ''b'', CHR ''B''}"
    using assms by (auto simp add: lower_byte_def split: if_splits option.splits)
  then show ?thesis
    by (auto simp add: space_bytes_def ascii_space_def general_punctuation_space_def)
qed

text \<open>
  An ASCII message classified as noisy-transient holds a letter, so it is not blank. (For
  other messages this depends on the Unicode tables.)
\<close>

lemma noisyTransient_not_blank:
  assumes "noisyTransient ul msg" and "isASCII msg"
  shows "TrimSpace msg \<noteq> []"
proof -
  have "CHR ''c'' \<in> set (ToLower ul msg) \<or> CHR ''b'' \<in> set (ToLower ul msg)"
    using assms(1)
    by (auto simp add: noisyTransient_def contextErrors_def dest: Contains_head)
  then obtain y where y: "y \<in> set msg" "lower_byte y = CHR ''c'' \<or> lower_byte y = CHR ''b''"
    using assms(2) by (auto simp add: ToLower_def)
  from y(2) have "y \<notin> space_bytes" by (rule lower_byte_cb)
  with y(1) show ?thesis by (rule TrimSpace_keeps)
qed

text \<open>
  With the lock free, \<open>shouldFilterDuplicateError\<close> returns, leaves the lock free and
  changes nothing but the handler's map.
\<close>

lemma shouldFilterDuplicateError_free:
  assumes "\<not> mutexLocked wd (errorMutex h)"
  shows "shouldFilterDuplicateError now h msg wd =
     (let m = purge now (errorWindow h) (errorTrackers wd (errorTracker h));
          dup = (case m msg of None \<Rightarrow> False | Some lastTime \<Rightarrow> now - lastTime < errorWindow h)
      in Some (dup, wd\<lparr>errorTrackers := (errorTrackers wd)
                 (errorTracker h := (if dup then m else m(msg \<mapsto> now)))\<rparr>))"
proof -
  have idem: "(mutexLocked wd)(errorMutex h := False) = mutexLocked wd"
    using assms by (simp add: fun_upd_idem)
  show ?thesis
    using assms
    by (simp add: shouldFilterDuplicateError_def Mutex_Lock_def Mutex_Unlock_def Let_def idem)
qed

lemma filterRules_at_duplicate_rule:
  assumes "passesEarlierRules h r"
  shows "filterRules ul now h r wd =
     (case isDuplicateContextError ul now h (Message r) wd of
        None \<Rightarrow> None
      | Some (dup, wd1) \<Rightarrow>
          if dup then Some (True, wd1)
          else if TrimSpace (Message r) = [] then Some (True, wd1)
          else Some (False, wd1))"
  using assms by (auto simp add: filterRules_def passesEarlierRules_def Let_def)


text \<open>
  The handlers that \<open>InitWithDefaults\<close> builds from the default configuration: a
  \<open>SmartFilterHandler\<close> around the colour console handler, and the JSON file handler,
  behind one \<open>MultiHandler\<close> that becomes the default logger.
\<close>

definition default_console :: ColorHandler where
  "default_console =
     \<lparr>ch_self = 0, ch_w = Stderr, ch_Level = Some LevelInfo, enableHighlight = True,
      compactMode = False\<rparr>"

definition default_filter :: SmartFilter where
  "default_filter =
     \<lparr>ignoreGinDebug = True, ignoreHealthCheck = True, minLevel = LevelInfo,
      errorTracker = 1, errorMutex = 2, errorWindow = 5 * Minute\<rparr>"

definition default_file :: StdHandler where
  "default_file = \<lparr>sh_w = LogFile, sh_Level = Some LevelInfo, sh_json = True, sh_bound = []\<rparr>"

definition default_logger :: Handler where
  "default_logger =
     MultiHandler [SmartFilterHandler default_filter (Color default_console), Std default_file]"

definition world1 :: World where
  "world1 = world0\<lparr>nextAddr := 3, slogDefault := default_logger\<rparr>"

lemma InitWithDefaults_default:
  "InitWithDefaults defaultConfig True world0 = (True, world1)"
  apply (simp add: InitWithDefaults_def createLogger_def defaultConfig_def parseLogLevel_def
      NewColorHandlerWithOptions_def NewColorHandler_def NewSmartFilterHandler_def Let_def
      world0_def default_logger_def default_filter_def default_console_def default_file_def
      LevelInfo_def numeral_3_eq_3 world1_def)
  apply (simp add: fun_eq_iff)
  done

text \<open>
  At the duplicate rule with the lock free: the verdict of the dedup check, then the
  blank-message rule; the map is purged, and the message is entered unless it is a
  duplicate.
\<close>

lemma filterRules_noisy:
  assumes "noisyTransient ul (Message r)" and "passesEarlierRules h r"
    and "\<not> mutexLocked wd (errorMutex h)"
  shows "filterRules ul now h r wd =
     (let m = purge now (errorWindow h) (errorTrackers wd (errorTracker h));
          dup = (case m (Message r) of None \<Rightarrow> False
                 | Some lastTime \<Rightarrow> now - lastTime < errorWindow h)
      in Some (dup \<or> TrimSpace (Message r) = [],
               wd\<lparr>errorTrackers := (errorTrackers wd)
                 (errorTracker h := (if dup then m else m(Message r \<mapsto> now)))\<rparr>))"
  using assms
  by (simp add: filterRules_at_duplicate_rule isDuplicateContextError_def
      shouldFilterDuplicateError_free Let_def)

text \<open>
  C1, amended. For every record whose message is classified as noisy-transient and
  which no other rule of \<open>Handle\<close> rejects (level gate, static patterns, health-check
  rule, blank-message rule), with the window at 5 minutes and the lock free, whatever
  the Unicode path of \<open>strings.ToLower\<close> computes: a first call at time \<open>T\<close> (no
  entry for the message) is accepted, that is passed to the wrapped handler, and
  records \<open>T\<close>; a call at \<open>T\<close> + 1 min, in any world whose entry for the message is
  \<open>T\<close>, is rejected as a duplicate, returns \<open>nil\<close> and leaves the entry at \<open>T\<close>; a call
  at \<open>T\<close> + 6 min in such a world is accepted again and overwrites the entry with
  \<open>T\<close> + 6 min.
\<close>

theorem dedup_window_timeline:
  assumes noisy: "noisyTransient ul (Message r)"
    and pass: "passesEarlierRules h r"
    and notblank: "TrimSpace (Message r) \<noteq> []"
    and window: "errorWindow h = 5 * Minute"
    and free: "\<not> mutexLocked wdA (errorMutex h)" "\<not> mutexLocked wdB (errorMutex h)"
      "\<not> mutexLocked wdC (errorMutex h)"
    and first: "errorTrackers wdA (errorTracker h) (Message r) = None"
    and seen: "errorTrackers wdB (errorTracker h) (Message r) = Some T"
      "errorTrackers wdC (errorTracker h) (Message r) = Some T"
  shows "(\<exists>wd1. filterRules ul T h r wdA = Some (False, wd1)
            \<and> Handle ul (Suc n) T (SmartFilterHandler h inner) r wdA = Handle ul n T inner r wd1
            \<and> errorTrackers wd1 (errorTracker h) (Message r) = Some T)
       \<and> (\<exists>wd2. filterRules ul (T + Minute) h r wdB = Some (True, wd2)
            \<and> Handle ul (Suc n) (T + Minute) (SmartFilterHandler h inner) r wdB = Some (None, wd2)
            \<and> errorTrackers wd2 (errorTracker h) (Message r) = Some T)
       \<and> (\<exists>wd3. filterRules ul (T + 6 * Minute) h r wdC = Some (False, wd3)
            \<and> Handle ul (Suc n) (T + 6 * Minute) (SmartFilterHandler h inner) r wdC
                = Handle ul n (T + 6 * Minute) inner r wd3
            \<and> errorTrackers wd3 (errorTracker h) (Message r) = Some (T + 6 * Minute))"
proof -
  have a: "\<exists>wd1. filterRules ul T h r wdA = Some (False, wd1)
            \<and> Handle ul (Suc n) T (SmartFilterHandler h inner) r wdA = Handle ul n T inner r wd1
            \<and> errorTrackers wd1 (errorTracker h) (Message r) = Some T"
    using first notblank
    by (simp add: filterRules_noisy [OF noisy pass free(1)] purge_def Let_def)
  have b: "\<exists>wd2. filterRules ul (T + Minute) h r wdB = Some (True, wd2)
            \<and> Handle ul (Suc n) (T + Minute) (SmartFilterHandler h inner) r wdB = Some (None, wd2)
            \<and> errorTrackers wd2 (errorTracker h) (Message r) = Some T"
    using seen(1) window notblank
    by (simp add: filterRules_noisy [OF noisy pass free(2)] purge_def Let_def Minute_def)
  have c: "\<exists>wd3. filterRules ul (T + 6 * Minute) h r wdC = Some (False, wd3)
            \<and> Handle ul (Suc n) (T + 6 * Minute) (SmartFilterHandler h inner) r wdC
                = Handle ul n (T + 6 * Minute) inner r wd3
            \<and> errorTrackers wd3 (errorTracker h) (Message r) = Some (T + 6 * Minute)"
    using seen(2) window notblank
    by (simp add: filterRules_noisy [OF noisy pass free(3)] purge_def Let_def Minute_def)
  from a b c show ?thesis by blast
qed

definition reset_record :: "Time \<Rightarrow> Record" where
  "reset_record t = \<lparr>Time = t, Message = ''connection reset by peer'', Level = LevelError, Attrs = []\<rparr>"

definition chromedp_record :: "Time \<Rightarrow> Record" where
  "chromedp_record t =
     \<lparr>Time = t, Message = ''context deadline exceeded: chromedp'', Level = LevelError, Attrs = []\<rparr>"

lemma noisy_reset: "noisyTransient ul (Message (reset_record t))"
  by (simp add: reset_record_def noisyTransient_def contextErrors_def ToLower_def isASCII_def lower_byte_def
      HasPrefix_def)

text \<open>
  The classification folds case: on an ASCII message by the byte path, and on any other
  message, such as \<open>broken pipe\<close> written with U+212A KELVIN SIGN for its \<open>k\<close>, by what the
  Unicode path returns.
\<close>

definition kelvin_message :: string where
  "kelvin_message = ''bro'' @ [CHR 0xE2, CHR 0x84, CHR 0xAA] @ ''en pipe''"

lemma noisyTransient_upper_case: "noisyTransient ul ''write: Broken Pipe''"
  by (simp add: noisyTransient_def contextErrors_def ToLower_def isASCII_def lower_byte_def
      HasPrefix_def)

lemma noisyTransient_kelvin_sign:
  "noisyTransient ul kelvin_message
     = list_ex (\<lambda>errMsg. Contains (ul kelvin_message) errMsg) contextErrors"
  by (simp add: noisyTransient_def ToLower_def isASCII_def kelvin_message_def)

lemma noisyTransient_kelvin_folded:
  assumes "ul kelvin_message = ''broken pipe''"
  shows "noisyTransient ul kelvin_message"
  using assms by (simp add: noisyTransient_kelvin_sign contextErrors_def HasPrefix_def)

lemma TrimSpace_reset: "TrimSpace (Message (reset_record t)) \<noteq> []"
proof (rule noisyTransient_not_blank)
  show "noisyTransient (\<lambda>s. s) (Message (reset_record t))"
    by (rule noisy_reset)
  show "isASCII (Message (reset_record t))"
    by (simp add: reset_record_def isASCII_def)
qed

lemma pass_reset: "passesEarlierRules default_filter (reset_record t)"
  by (simp add: reset_record_def passesEarlierRules_def default_filter_def LevelInfo_def
      LevelError_def ginDebugRegex_def cookiePartitionRegex_def chromedpInternalRegex_def
      shouldIgnoreHealthCheck_def healthCheckRegex_def HasPrefix_def)

lemma TrimSpace_chromedp: "TrimSpace (Message (chromedp_record t)) \<noteq> []"
proof (rule TrimSpace_keeps)
  show "CHR ''c'' \<in> set (Message (chromedp_record t))"
    by (simp add: chromedp_record_def)
  show "CHR ''c'' \<notin> space_bytes"
    by (simp add: space_bytes_def ascii_space_def general_punctuation_space_def)
qed

text \<open>
  C1 as stated fails: a message can be classified as noisy-transient and still never
  be accepted, because an earlier rule rejects it. \<open>context deadline exceeded: chromedp\<close>
  holds a transient phrase and matches the pattern \<open>context deadline exceeded.*chromedp\<close>
  of rule 4; its first call, at error level on the default console filter, returns
  \<open>nil\<close> with the world unchanged: nothing reaches the wrapped handler and no entry
  is recorded.
\<close>

theorem dedup_rejected_earlier_counterexample:
  "\<forall>ul. noisyTransient ul (Message (chromedp_record 0))
     \<and> TrimSpace (Message (chromedp_record 0)) \<noteq> []
     \<and> errorTrackers world1 (errorTracker default_filter) (Message (chromedp_record 0)) = None
     \<and> Handle ul (Suc (Suc 0)) 0 (SmartFilterHandler default_filter (Color default_console))
          (chromedp_record 0) world1 = Some (None, world1)"
  using TrimSpace_chromedp [of 0]
  by (simp add: chromedp_record_def noisyTransient_def contextErrors_def ToLower_def isASCII_def lower_byte_def
      HasPrefix_def filterRules_def default_filter_def LevelInfo_def LevelError_def
      ginDebugRegex_def cookiePartitionRegex_def chromedpInternalRegex_def world1_def world0_def)


text \<open>
  The scenario of the specification: \<open>connection reset by peer\<close> at
  error level through the default console filter, at times 0, 1 min and 6 min.
\<close>

definition seen_world :: "Time \<Rightarrow> World" where
  "seen_world t =
     world1\<lparr>errorTrackers := (errorTrackers world1)
        (errorTracker default_filter := [Message (reset_record t) \<mapsto> t])\<rparr>"

theorem dedup_window_timeline_witness:
  "\<forall>ul.
     (\<exists>wd1. filterRules ul 0 default_filter (reset_record 0) world1 = Some (False, wd1)
        \<and> Handle ul (Suc (Suc 0)) 0 (SmartFilterHandler default_filter (Color default_console))
             (reset_record 0) world1
            = Handle ul (Suc 0) 0 (Color default_console) (reset_record 0) wd1
        \<and> errorTrackers wd1 (errorTracker default_filter) (Message (reset_record 0)) = Some 0)
     \<and> (\<exists>wd2. filterRules ul (0 + Minute) default_filter (reset_record 0) (seen_world 0)
            = Some (True, wd2)
        \<and> Handle ul (Suc (Suc 0)) (0 + Minute)
             (SmartFilterHandler default_filter (Color default_console))
             (reset_record 0) (seen_world 0) = Some (None, wd2)
        \<and> errorTrackers wd2 (errorTracker default_filter) (Message (reset_record 0)) = Some 0)
     \<and> (\<exists>wd3. filterRules ul (0 + 6 * Minute) default_filter (reset_record 0) (seen_world 0)
            = Some (False, wd3)
        \<and> Handle ul (Suc (Suc 0)) (0 + 6 * Minute)
             (SmartFilterHandler default_filter (Color default_console))
             (reset_record 0) (seen_world 0)
            = Handle ul (Suc 0) (0 + 6 * Minute) (Color default_console) (reset_record 0) wd3
        \<and> errorTrackers wd3 (errorTracker default_filter) (Message (reset_record 0))
            = Some (0 + 6 * Minute))"
  (is "\<forall>ul. ?timeline ul")
proof (rule allI)
  fix ul
  show "?timeline ul"
  proof (rule dedup_window_timeline [OF noisy_reset pass_reset TrimSpace_reset])
    show "errorWindow default_filter = 5 * Minute"
      by (simp add: default_filter_def)
    show "\<not> mutexLocked world1 (errorMutex default_filter)"
      by (simp add: world1_def world0_def)
    show "\<not> mutexLocked (seen_world 0) (errorMutex default_filter)"
      by (simp add: seen_world_def world1_def world0_def)
    then show "\<not> mutexLocked (seen_world 0) (errorMutex default_filter)" .
    show "errorTrackers world1 (errorTracker default_filter) (Message (reset_record 0)) = None"
      by (simp add: world1_def world0_def)
    show "errorTrackers (seen_world 0) (errorTracker default_filter) (Message (reset_record 0))
        = Some 0"
      by (simp add: seen_world_def)
    then show "errorTrackers (seen_world 0) (errorTracker default_filter)
        (Message (reset_record 0)) = Some 0" .
  qed
qed

definition debug_filter :: SmartFilter where
  "debug_filter = default_filter\<lparr>minLevel := LevelDebug\<rparr>"

definition hello_record :: "Level \<Rightarrow> Record" where
  "hello_record l = \<lparr>Time = 0, Message = ''hello'', Level = l, Attrs = []\<rparr>"

lemma not_noisy_hello: "\<not> noisyTransient ul (Message (hello_record l))"
  by (simp add: hello_record_def noisyTransient_def contextErrors_def ToLower_def isASCII_def lower_byte_def
      HasPrefix_def)

lemma TrimSpace_hello: "TrimSpace (Message (hello_record l)) \<noteq> []"
proof (rule TrimSpace_keeps)
  show "CHR ''h'' \<in> set (Message (hello_record l))"
    by (simp add: hello_record_def)
  show "CHR ''h'' \<notin> space_bytes"
    by (simp add: space_bytes_def ascii_space_def general_punctuation_space_def)
qed

lemma filterRules_hello:
  "minLevel h \<le> l \<Longrightarrow> filterRules ul now h (hello_record l) wd = Some (False, wd)"
  using not_noisy_hello [of ul l] TrimSpace_hello [of l]
  by (simp add: filterRules_def isDuplicateContextError_def Let_def)
     (simp add: hello_record_def ginDebugRegex_def cookiePartitionRegex_def
      chromedpInternalRegex_def shouldIgnoreHealthCheck_def healthCheckRegex_def HasPrefix_def)

text \<open>
  C2 as stated fails: \<open>Handle\<close> passes every record that its rules let through to the
  wrapped handler without asking the wrapped handler's \<open>Enabled\<close>. A filter with minimum
  level debug around a console handler with minimum level info, handed a debug record
  \<open>hello\<close>: the wrapped handler is not enabled at debug level, and the record is
  written by it all the same.
\<close>

theorem filter_forwards_to_disabled_counterexample:
  "\<forall>ul. filterRules ul 0 debug_filter (hello_record LevelDebug) world1 = Some (False, world1)
     \<and> \<not> Enabled (Color default_console) (Level (hello_record LevelDebug))
     \<and> (\<exists>wd'. Handle ul (Suc (Suc 0)) 0 (SmartFilterHandler debug_filter (Color default_console))
            (hello_record LevelDebug) world1 = Some (None, wd')
          \<and> written wd' Stderr = [ColorLine False True (hello_record LevelDebug)])"
  (is "\<forall>ul. ?forwarded ul")
proof (rule allI)
  fix ul
  have f: "filterRules ul 0 debug_filter (hello_record LevelDebug) world1 = Some (False, world1)"
    by (rule filterRules_hello) (simp add: debug_filter_def)
  have e: "\<not> Enabled (Color default_console) (Level (hello_record LevelDebug))"
    by (simp add: default_console_def hello_record_def LevelDebug_def LevelInfo_def)
  have h: "\<exists>wd'. Handle ul (Suc (Suc 0)) 0 (SmartFilterHandler debug_filter (Color default_console))
          (hello_record LevelDebug) world1 = Some (None, wd')
        \<and> written wd' Stderr = [ColorLine False True (hello_record LevelDebug)]"
  proof -
    have fwd: "Handle ul (Suc (Suc 0)) 0 (SmartFilterHandler debug_filter (Color default_console))
          (hello_record LevelDebug) world1
        = Handle ul (Suc 0) 0 (Color default_console) (hello_record LevelDebug) world1"
      by (simp add: f)
    have col: "\<exists>wd'. Handle ul (Suc 0) 0 (Color default_console) (hello_record LevelDebug) world1
          = Some (None, wd')
        \<and> written wd' Stderr = [ColorLine False True (hello_record LevelDebug)]"
      by (simp add: ColorHandler_Handle_def Mutex_Lock_def Mutex_Unlock_def write_out_def
          default_console_def world1_def world0_def Let_def)
    from fwd col show ?thesis by simp
  qed
  from f e h show "?forwarded ul" by blast
qed

text \<open>
  C2, amended. \<open>Handle\<close> of the filtering handler passes every record that its rules do
  not reject to the wrapped handler, and returns \<open>nil\<close> for one they reject; the
  wrapped handler's \<open>Enabled\<close> is asked by the filtering handler's own \<open>Enabled\<close>, which
  holds exactly when the level reaches the minimum and the wrapped handler is enabled.
  So a caller that asks \<open>Enabled\<close> first, as the loop of \<open>MultiHandler.Handle\<close> does,
  never hands the filter a record whose level the wrapped handler is not enabled for.
\<close>

theorem filter_forwards_gate_in_Enabled:
  "(filterRules ul now h r wd = Some (False, wd1) \<longrightarrow>
      Handle ul (Suc n) now (SmartFilterHandler h inner) r wd = Handle ul n now inner r wd1)
   \<and> (filterRules ul now h r wd = Some (True, wd1) \<longrightarrow>
      Handle ul (Suc n) now (SmartFilterHandler h inner) r wd = Some (None, wd1))
   \<and> Enabled (SmartFilterHandler h inner) level = (minLevel h \<le> level \<and> Enabled inner level)
   \<and> (\<not> Enabled inner (Level r) \<longrightarrow>
        dispatch ul n now (SmartFilterHandler h inner # hs) r wd = dispatch ul n now hs r wd)"
  by simp

theorem filter_forwards_gate_in_Enabled_witness:
  "\<forall>ul. Handle ul (Suc (Suc 0)) 0 (SmartFilterHandler default_filter (Color default_console))
        (hello_record LevelInfo) world1
       = Handle ul (Suc 0) 0 (Color default_console) (hello_record LevelInfo) world1
     \<and> Enabled (SmartFilterHandler debug_filter (Color default_console)) LevelDebug = False
     \<and> dispatch ul (Suc 0) 0 [SmartFilterHandler debug_filter (Color default_console)]
          (hello_record LevelDebug) world1 = Some world1"
  (is "\<forall>ul. ?gated ul")
proof (rule allI)
  fix ul
  have f: "filterRules ul 0 default_filter (hello_record LevelInfo) world1 = Some (False, world1)"
    by (rule filterRules_hello) (simp add: default_filter_def)
  have e: "\<not> Enabled (Color default_console) (Level (hello_record LevelDebug))"
    by (simp add: default_console_def hello_record_def LevelDebug_def LevelInfo_def)
  have e': "\<not> Enabled (Color default_console) LevelDebug"
    by (simp add: default_console_def LevelDebug_def LevelInfo_def)
  show "?gated ul"
    using f e e'
      filter_forwards_gate_in_Enabled
        [of ul 0 default_filter "hello_record LevelInfo" world1 world1 "Suc 0"
            "Color default_console" LevelDebug "[]"]
      filter_forwards_gate_in_Enabled
        [of ul 0 debug_filter "hello_record LevelDebug" world1 world1 "Suc 0"
            "Color default_console" LevelDebug "[]"]
    by simp
qed



text \<open>
  No entry of the map at address \<open>a\<close> is older than the window, seen from \<open>now\<close>.
\<close>

definition no_stale :: "Time \<Rightarrow> Duration \<Rightarrow> nat \<Rightarrow> World \<Rightarrow> bool" where
  "no_stale now window a wd =
     (\<forall>key t. errorTrackers wd a key = Some t \<longrightarrow> now - t \<le> window)"

lemma ColorHandler_Handle_trackers:
  "ColorHandler_Handle now h r wd = Some wd1 \<Longrightarrow> errorTrackers wd1 = errorTrackers wd"
  by (auto simp add: ColorHandler_Handle_def Mutex_Lock_def Mutex_Unlock_def write_out_def Let_def
      split: if_splits)

lemma StdHandler_Handle_trackers:
  "StdHandler_Handle h r wd = (res, wd1) \<Longrightarrow> errorTrackers wd1 = errorTrackers wd"
  by (auto simp add: StdHandler_Handle_def write_out_def split: if_splits)

lemma purge_no_older:
  "purge now W m key = Some t \<Longrightarrow> now - t \<le> W"
  by (auto simp add: purge_def split: option.splits if_splits)

lemma purge_subset:
  "purge now W m key = Some t \<Longrightarrow> m key = Some t"
  by (auto simp add: purge_def split: option.splits if_splits)

lemma shouldFilterDuplicateError_map:
  assumes "shouldFilterDuplicateError now h msg wd = Some (dup, wd1)"
  shows "errorTrackers wd1 =
     (errorTrackers wd)(errorTracker h :=
        (if dup then purge now (errorWindow h) (errorTrackers wd (errorTracker h))
         else (purge now (errorWindow h) (errorTrackers wd (errorTracker h)))(msg \<mapsto> now)))"
proof -
  have free: "\<not> mutexLocked wd (errorMutex h)"
    using assms by (auto simp add: shouldFilterDuplicateError_def Mutex_Lock_def split: if_splits)
  show ?thesis
    using assms by (auto simp add: shouldFilterDuplicateError_free [OF free] Let_def)
qed

lemma shouldFilterDuplicateError_no_stale:
  assumes "shouldFilterDuplicateError now h msg wd = Some (dup, wd1)" and "0 \<le> W"
    and "no_stale now W a wd"
  shows "no_stale now W a wd1"
  unfolding no_stale_def
proof (intro allI impI)
  fix key t
  assume e: "errorTrackers wd1 a key = Some t"
  note m = shouldFilterDuplicateError_map [OF assms(1)]
  show "now - t \<le> W"
  proof (cases "a = errorTracker h")
    case False
    then have "errorTrackers wd a key = Some t" using e m by simp
    then show ?thesis using assms(3) by (simp add: no_stale_def)
  next
    case True
    then have "(purge now (errorWindow h) (errorTrackers wd a)) key = Some t \<or> t = now"
      using e m by (auto split: if_splits)
    then show ?thesis
    proof
      assume "purge now (errorWindow h) (errorTrackers wd a) key = Some t"
      then have "errorTrackers wd a key = Some t" by (rule purge_subset)
      then show ?thesis using assms(3) by (simp add: no_stale_def)
    next
      assume "t = now"
      then show ?thesis using assms(2) by simp
    qed
  qed
qed

lemma shouldFilterDuplicateError_purges:
  assumes "shouldFilterDuplicateError now h msg wd = Some (dup, wd1)" and "0 \<le> errorWindow h"
  shows "no_stale now (errorWindow h) (errorTracker h) wd1"
  unfolding no_stale_def
proof (intro allI impI)
  fix key t
  assume e: "errorTrackers wd1 (errorTracker h) key = Some t"
  note m = shouldFilterDuplicateError_map [OF assms(1)]
  have "(purge now (errorWindow h) (errorTrackers wd (errorTracker h))) key = Some t \<or> t = now"
    using e m by (auto split: if_splits)
  then show "now - t \<le> errorWindow h"
    using assms(2) purge_no_older by auto
qed

lemma filterRules_shape:
  "filterRules ul now h r wd = Some (True, wd)
   \<or> filterRules ul now h r wd =
     (case isDuplicateContextError ul now h (Message r) wd of
        None \<Rightarrow> None
      | Some (dup, wd1) \<Rightarrow>
          if dup then Some (True, wd1)
          else if TrimSpace (Message r) = [] then Some (True, wd1)
          else Some (False, wd1))"
  by (simp add: filterRules_def Let_def)

lemma isDuplicateContextError_cases:
  assumes "isDuplicateContextError ul now h msg wd = Some (dup, wd1)"
  shows "wd1 = wd \<or> shouldFilterDuplicateError now h msg wd = Some (dup, wd1)"
proof (cases "noisyTransient ul msg")
  case True
  then show ?thesis using assms by (simp add: isDuplicateContextError_def)
next
  case False
  then show ?thesis using assms by (simp add: isDuplicateContextError_def)
qed

lemma filterRules_cases:
  assumes "filterRules ul now h r wd = Some (rej, wd1)"
  shows "wd1 = wd \<or> (\<exists>dup. shouldFilterDuplicateError now h (Message r) wd = Some (dup, wd1))"
proof -
  from filterRules_shape [of ul now h r wd]
  show ?thesis
  proof
    assume "filterRules ul now h r wd = Some (True, wd)"
    then show ?thesis using assms by simp
  next
    assume sh: "filterRules ul now h r wd =
     (case isDuplicateContextError ul now h (Message r) wd of
        None \<Rightarrow> None
      | Some (dup, wd1) \<Rightarrow>
          if dup then Some (True, wd1)
          else if TrimSpace (Message r) = [] then Some (True, wd1)
          else Some (False, wd1))"
    show ?thesis
    proof (cases "isDuplicateContextError ul now h (Message r) wd")
      case None
      then show ?thesis using sh assms by simp
    next
      case (Some p)
      obtain dup wd2 where p: "p = (dup, wd2)" by (cases p)
      have "wd1 = wd2"
        using sh assms Some p by (simp split: if_splits)
      then have "isDuplicateContextError ul now h (Message r) wd = Some (dup, wd1)"
        using Some p by simp
      then show ?thesis
        using isDuplicateContextError_cases by blast
    qed
  qed
qed

lemma filterRules_no_stale:
  assumes "filterRules ul now h r wd = Some (rej, wd1)" and "0 \<le> W" and "no_stale now W a wd"
  shows "no_stale now W a wd1"
  using filterRules_cases [OF assms(1)] assms(2,3) shouldFilterDuplicateError_no_stale
  by blast


text \<open>
  No handler adds an old entry: whatever \<open>Handle\<close> runs, a map without stale entries
  stays without them (for a window that is not negative).
\<close>

lemma Handle_dispatch_no_stale:
  assumes "0 \<le> W"
  shows "Handle ul n now h r wd = Some (res, wd') \<Longrightarrow> no_stale now W a wd \<Longrightarrow> no_stale now W a wd'"
    and "dispatch ul n now hs r wd = Some wd' \<Longrightarrow> no_stale now W a wd \<Longrightarrow> no_stale now W a wd'"
proof (induction ul n now h r wd and ul n now hs r wd arbitrary: res wd' and wd'
    rule: Handle_dispatch.induct)
  case (1 ul now h r wd)
  then show ?case by simp
next
  case (2 ul n now h r wd)
  then obtain wd1 where "ColorHandler_Handle now h r wd = Some wd1" "wd' = wd1"
    by (auto split: option.splits)
  then show ?case
    using "2.prems"(2) ColorHandler_Handle_trackers [of now h r wd wd1]
    by (simp add: no_stale_def)
next
  case (3 ul n now h r wd)
  then have "StdHandler_Handle h r wd = (res, wd')" by simp
  then show ?case
    using "3.prems"(2) StdHandler_Handle_trackers [of h r wd res wd']
    by (simp add: no_stale_def)
next
  case (4 ul n now h inner r wd)
  from "4.prems"(1) obtain rej wd1 where f: "filterRules ul now h r wd = Some (rej, wd1)"
    by (auto split: option.splits)
  have s1: "no_stale now W a wd1"
    using filterRules_no_stale [OF f assms "4.prems"(2)] .
  show ?case
  proof (cases rej)
    case True
    then show ?thesis using "4.prems"(1) f s1 by simp
  next
    case False
    then have "Handle ul n now inner r wd1 = Some (res, wd')"
      using "4.prems"(1) f by simp
    then show ?thesis
      using "4.IH" f False s1 by blast
  qed
next
  case (5 ul n now hs r wd)
  then show ?case
    by (auto split: option.splits)
next
  case (6 ul n now r wd)
  then show ?case by simp
next
  case (7 ul n now h hs r wd)
  show ?case
  proof (cases "Enabled h (Level r)")
    case False
    then show ?thesis using "7.prems" "7.IH"(6) by simp
  next
    case True
    note en = True
    from "7.prems"(1) en obtain res1 wd1 where h1: "Handle ul n now h (Clone r) wd = Some (res1, wd1)"
      by (auto split: option.splits)
    have s1: "no_stale now W a wd1"
      using "7.IH"(1) [OF en h1 "7.prems"(2)] .
    show ?thesis
    proof (cases res1)
      case None
      then have "dispatch ul n now hs r wd1 = Some wd'"
        using "7.prems"(1) en h1 by simp
      then show ?thesis
        using "7.IH"(2) en h1 None s1 by blast
    next
      case (Some err)
      show ?thesis
      proof (cases "Enabled (slogDefault wd1) LevelError")
        case False
        then have "dispatch ul n now hs r wd1 = Some wd'"
          using "7.prems"(1) en h1 Some by simp
        then show ?thesis
          using "7.IH"(5) en h1 Some False s1 by blast
      next
        case True
        from "7.prems"(1) en h1 Some True obtain res2 wd2 where
          h2: "Handle ul n now (slogDefault wd1) (error_record now err) wd1 = Some (res2, wd2)"
          by (auto split: option.splits)
        have s2: "no_stale now W a wd2"
          using "7.IH"(3) en h1 Some True h2 s1 by blast
        have "dispatch ul n now hs r wd2 = Some wd'"
          using "7.prems"(1) en h1 Some True h2 by simp
        then show ?thesis
          using "7.IH"(4) en h1 Some True h2 s2 by blast
      qed
    qed
  qed
qed


text \<open>
  A world in which the map of the default console filter holds one entry, recorded
  at time 0.
\<close>

definition stale_world :: World where
  "stale_world =
     world1\<lparr>errorTrackers := (errorTrackers world1)
        (errorTracker default_filter := [''broken pipe'' \<mapsto> 0])\<rparr>"

lemma Handle_hello_stale:
  "\<exists>wd'. Handle ul (Suc (Suc 0)) (10 * Minute)
          (SmartFilterHandler default_filter (Color default_console))
          (hello_record LevelError) stale_world = Some (None, wd')
     \<and> written wd' Stderr = [ColorLine False True (hello_record LevelError)]
     \<and> errorTrackers wd' (errorTracker default_filter) ''broken pipe'' = Some 0"
proof -
  have f: "filterRules ul (10 * Minute) default_filter (hello_record LevelError) stale_world
      = Some (False, stale_world)"
    by (rule filterRules_hello) (simp add: default_filter_def LevelInfo_def LevelError_def)
  have fwd: "Handle ul (Suc (Suc 0)) (10 * Minute)
        (SmartFilterHandler default_filter (Color default_console))
        (hello_record LevelError) stale_world
      = Handle ul (Suc 0) (10 * Minute) (Color default_console) (hello_record LevelError) stale_world"
    by (simp add: f)
  have col: "\<exists>wd'. Handle ul (Suc 0) (10 * Minute) (Color default_console) (hello_record LevelError)
        stale_world = Some (None, wd')
     \<and> written wd' Stderr = [ColorLine False True (hello_record LevelError)]
     \<and> errorTrackers wd' (errorTracker default_filter) ''broken pipe'' = Some 0"
    by (simp add: ColorHandler_Handle_def Mutex_Lock_def Mutex_Unlock_def write_out_def
        default_console_def stale_world_def world1_def world0_def Let_def)
  from fwd col show ?thesis by simp
qed

text \<open>
  C3 as stated fails: the purge is part of \<open>shouldFilterDuplicateError\<close>, which
  \<open>Handle\<close> reaches only for a message classified as noisy-transient. Ten minutes after
  the entry was recorded, a call with the message \<open>hello\<close> is passed to the console
  and returns, and the entry, twice as old as the window, is still in the map.
\<close>

theorem stale_entry_survives_counterexample:
  "\<forall>ul. \<exists>wd'. Handle ul (Suc (Suc 0)) (10 * Minute)
          (SmartFilterHandler default_filter (Color default_console))
          (hello_record LevelError) stale_world = Some (None, wd')
     \<and> written wd' Stderr = [ColorLine False True (hello_record LevelError)]
     \<and> errorTrackers wd' (errorTracker default_filter) ''broken pipe'' = Some 0
     \<and> 10 * Minute - 0 > errorWindow default_filter"
proof (rule allI)
  fix ul
  have old: "10 * Minute - 0 > errorWindow default_filter"
    by (simp add: default_filter_def Minute_def)
  from Handle_hello_stale [of ul] old
  show "\<exists>wd'. Handle ul (Suc (Suc 0)) (10 * Minute)
          (SmartFilterHandler default_filter (Color default_console))
          (hello_record LevelError) stale_world = Some (None, wd')
     \<and> written wd' Stderr = [ColorLine False True (hello_record LevelError)]
     \<and> errorTrackers wd' (errorTracker default_filter) ''broken pipe'' = Some 0
     \<and> 10 * Minute - 0 > errorWindow default_filter"
    by blast
qed

text \<open>
  A record that does not reach the duplicate rule with a noisy-transient message leaves
  every dedup map as it is: the filter's own checks do not touch the world then, the
  other handlers never touch a map, and the record that \<open>MultiHandler.Handle\<close> makes up to
  report an error (\<open>Handler error\<close>) is not noisy-transient either.
\<close>

lemma filterRules_not_noisy:
  assumes "\<not> noisyTransient ul (Message r)"
  shows "\<exists>rej. filterRules ul now h r wd = Some (rej, wd)"
  using assms by (auto simp add: filterRules_def isDuplicateContextError_def Let_def)

lemma filterRules_rejected_earlier:
  assumes "\<not> passesEarlierRules h r"
  shows "filterRules ul now h r wd = Some (True, wd)"
  using assms by (auto simp add: filterRules_def passesEarlierRules_def Let_def)

lemma not_noisy_error_record: "\<not> noisyTransient ul (Message (error_record now err))"
  by (simp add: error_record_def noisyTransient_def contextErrors_def ToLower_def isASCII_def
      lower_byte_def HasPrefix_def)

lemma Handle_dispatch_quiet:
  shows "Handle ul n now h r wd = Some (res, wd') \<Longrightarrow> \<not> noisyTransient ul (Message r)
      \<Longrightarrow> errorTrackers wd' = errorTrackers wd"
    and "dispatch ul n now hs r wd = Some wd' \<Longrightarrow> \<not> noisyTransient ul (Message r)
      \<Longrightarrow> errorTrackers wd' = errorTrackers wd"
proof (induction ul n now h r wd and ul n now hs r wd arbitrary: res wd' and wd'
    rule: Handle_dispatch.induct)
  case (1 ul now h r wd)
  then show ?case by simp
next
  case (2 ul n now h r wd)
  then obtain wd1 where "ColorHandler_Handle now h r wd = Some wd1" "wd' = wd1"
    by (auto split: option.splits)
  then show ?case
    using ColorHandler_Handle_trackers [of now h r wd wd1] by simp
next
  case (3 ul n now h r wd)
  then have "StdHandler_Handle h r wd = (res, wd')" by simp
  then show ?case
    using StdHandler_Handle_trackers [of h r wd res wd'] by simp
next
  case (4 ul n now h inner r wd)
  from filterRules_not_noisy [OF "4.prems"(2)]
  obtain rej where f: "filterRules ul now h r wd = Some (rej, wd)"
    by blast
  show ?case
  proof (cases rej)
    case True
    then show ?thesis using "4.prems"(1) f by simp
  next
    case False
    then have "Handle ul n now inner r wd = Some (res, wd')"
      using "4.prems"(1) f by simp
    then show ?thesis
      using "4.IH" f False "4.prems"(2) by blast
  qed
next
  case (5 ul n now hs r wd)
  then show ?case
    by (auto split: option.splits)
next
  case (6 ul n now r wd)
  then show ?case by simp
next
  case (7 ul n now h hs r wd)
  note quiet = "7.prems"(2)
  show ?case
  proof (cases "Enabled h (Level r)")
    case False
    then show ?thesis using "7.prems" "7.IH"(6) by simp
  next
    case True
    note en = True
    from "7.prems"(1) en obtain res1 wd1 where h1: "Handle ul n now h (Clone r) wd = Some (res1, wd1)"
      by (auto split: option.splits)
    have q: "\<not> noisyTransient ul (Message (Clone r))"
      using quiet by (simp add: Clone_def)
    have s1: "errorTrackers wd1 = errorTrackers wd"
      using "7.IH"(1) [OF en h1 q] .
    show ?thesis
    proof (cases res1)
      case None
      then have "dispatch ul n now hs r wd1 = Some wd'"
        using "7.prems"(1) en h1 by simp
      then have "errorTrackers wd' = errorTrackers wd1"
        using "7.IH"(2) en h1 None quiet by blast
      then show ?thesis using s1 by simp
    next
      case (Some err)
      show ?thesis
      proof (cases "Enabled (slogDefault wd1) LevelError")
        case False
        then have "dispatch ul n now hs r wd1 = Some wd'"
          using "7.prems"(1) en h1 Some by simp
        then have "errorTrackers wd' = errorTrackers wd1"
          using "7.IH"(5) en h1 Some False quiet by blast
        then show ?thesis using s1 by simp
      next
        case True
        from "7.prems"(1) en h1 Some True obtain res2 wd2 where
          h2: "Handle ul n now (slogDefault wd1) (error_record now err) wd1 = Some (res2, wd2)"
          by (auto split: option.splits)
        have s2: "errorTrackers wd2 = errorTrackers wd1"
          using "7.IH"(3) en h1 Some True h2 not_noisy_error_record by blast
        have "dispatch ul n now hs r wd2 = Some wd'"
          using "7.prems"(1) en h1 Some True h2 by simp
        then have "errorTrackers wd' = errorTrackers wd2"
          using "7.IH"(4) en h1 Some True h2 quiet by blast
        then show ?thesis using s1 s2 by simp
      qed
    qed
  qed
qed

text \<open>
  C3, amended. After every \<open>Handle\<close> call of the filtering handler that reaches the
  duplicate rule with a message classified as noisy-transient (and a window that is
  not negative), the dedup map holds no entry older than the window: the purge runs
  before the lookup, and nothing the wrapped handler does brings an old entry back.
  This is stated for the filter's own part of the call, which returns whenever the
  lock is free, and for the whole call, whenever it returns. Every other \<open>Handle\<close> call
  leaves the map, stale entries included, as it is: when the message is not classified
  as noisy-transient, the filter's own part returns with the world it started in and
  the whole call, whenever it returns, ends with every dedup map unchanged; when the
  level gate, a static pattern or the health-check rule rejects the record, the call
  returns \<open>nil\<close> in the world it started in. All of it holds whatever the Unicode path of
  \<open>strings.ToLower\<close> computes.
\<close>

theorem stale_entries_purged_at_duplicate_rule:
  "(noisyTransient ul (Message r) \<and> passesEarlierRules h r \<and> 0 \<le> errorWindow h \<longrightarrow>
       (\<not> mutexLocked wd (errorMutex h) \<longrightarrow>
          (\<exists>rej wd1. filterRules ul now h r wd = Some (rej, wd1)
             \<and> no_stale now (errorWindow h) (errorTracker h) wd1))
     \<and> (Handle ul (Suc n) now (SmartFilterHandler h inner) r wd = Some (res, wd') \<longrightarrow>
          no_stale now (errorWindow h) (errorTracker h) wd'))
   \<and> (\<not> noisyTransient ul (Message r) \<longrightarrow>
       (\<exists>rej. filterRules ul now h r wd = Some (rej, wd))
     \<and> (Handle ul (Suc n) now (SmartFilterHandler h inner) r wd = Some (res, wd') \<longrightarrow>
          errorTrackers wd' = errorTrackers wd))
   \<and> (\<not> passesEarlierRules h r \<longrightarrow>
       filterRules ul now h r wd = Some (True, wd)
     \<and> Handle ul (Suc n) now (SmartFilterHandler h inner) r wd = Some (None, wd))"
proof -
  have purged: "no_stale now (errorWindow h) (errorTracker h) wd1"
    if noisy: "noisyTransient ul (Message r)" and pass: "passesEarlierRules h r"
      and window: "0 \<le> errorWindow h"
      and f: "filterRules ul now h r wd = Some (rej, wd1)" for rej wd1
  proof -
    have d: "isDuplicateContextError ul now h (Message r) wd
        = shouldFilterDuplicateError now h (Message r) wd"
      using noisy by (simp add: isDuplicateContextError_def)
    note sh = filterRules_at_duplicate_rule [OF pass, where ul = ul and now = now and wd = wd]
    have "\<exists>dup. shouldFilterDuplicateError now h (Message r) wd = Some (dup, wd1)"
    proof (cases "shouldFilterDuplicateError now h (Message r) wd")
      case None
      then show ?thesis using sh d f by simp
    next
      case (Some p)
      obtain dup wd2 where p: "p = (dup, wd2)" by (cases p)
      have "wd1 = wd2"
        using sh d f Some p by (simp split: if_splits)
      then show ?thesis using Some p by simp
    qed
    then obtain dup where "shouldFilterDuplicateError now h (Message r) wd = Some (dup, wd1)"
      by blast
    then show ?thesis
      using window by (rule shouldFilterDuplicateError_purges)
  qed
  have a: "\<exists>rej wd1. filterRules ul now h r wd = Some (rej, wd1)
               \<and> no_stale now (errorWindow h) (errorTracker h) wd1"
    if noisy: "noisyTransient ul (Message r)" and pass: "passesEarlierRules h r"
      and window: "0 \<le> errorWindow h" and free: "\<not> mutexLocked wd (errorMutex h)"
  proof -
    obtain rej wd1 where f: "filterRules ul now h r wd = Some (rej, wd1)"
      by (simp add: filterRules_noisy [OF noisy pass free] Let_def)
    then show ?thesis using purged [OF noisy pass window] by blast
  qed
  have b: "no_stale now (errorWindow h) (errorTracker h) wd'"
    if noisy: "noisyTransient ul (Message r)" and pass: "passesEarlierRules h r"
      and window: "0 \<le> errorWindow h"
      and run: "Handle ul (Suc n) now (SmartFilterHandler h inner) r wd = Some (res, wd')"
  proof -
    from run obtain rej wd1 where f: "filterRules ul now h r wd = Some (rej, wd1)"
      by (auto split: option.splits)
    note s1 = purged [OF noisy pass window f]
    show ?thesis
    proof (cases rej)
      case True
      then show ?thesis using run f s1 by simp
    next
      case False
      then have "Handle ul n now inner r wd1 = Some (res, wd')"
        using run f by simp
      then show ?thesis
        using Handle_dispatch_no_stale(1) [OF window] s1 by blast
    qed
  qed
  have c: "\<exists>rej. filterRules ul now h r wd = Some (rej, wd)"
    if "\<not> noisyTransient ul (Message r)"
    using that by (rule filterRules_not_noisy)
  have d: "errorTrackers wd' = errorTrackers wd"
    if "\<not> noisyTransient ul (Message r)"
      and "Handle ul (Suc n) now (SmartFilterHandler h inner) r wd = Some (res, wd')"
    using Handle_dispatch_quiet(1) [OF that(2) that(1)] .
  have e: "filterRules ul now h r wd = Some (True, wd)
     \<and> Handle ul (Suc n) now (SmartFilterHandler h inner) r wd = Some (None, wd)"
    if "\<not> passesEarlierRules h r"
    using filterRules_rejected_earlier [OF that, where ul = ul and now = now and wd = wd]
    by simp
  from a b c d e show ?thesis by blast
qed

lemma Handle_reset_stale:
  "\<exists>wd'. Handle ul (Suc (Suc 0)) (10 * Minute) (SmartFilterHandler default_filter (Color default_console))
        (reset_record 0) stale_world = Some (None, wd')"
proof -
  have free: "\<not> mutexLocked stale_world (errorMutex default_filter)"
    by (simp add: stale_world_def world1_def world0_def)
  note fr = filterRules_noisy [OF noisy_reset pass_reset free]
  have nd: "purge (10 * Minute) (errorWindow default_filter)
      (errorTrackers stale_world (errorTracker default_filter)) (Message (reset_record 0)) = None"
    by (simp add: purge_def stale_world_def reset_record_def)
  have "\<exists>wd1. filterRules ul (10 * Minute) default_filter (reset_record 0) stale_world = Some (False, wd1)
      \<and> mutexLocked wd1 = mutexLocked stale_world"
    by (simp add: fr nd Let_def TrimSpace_reset)
  then obtain wd1 where w: "filterRules ul (10 * Minute) default_filter (reset_record 0) stale_world
      = Some (False, wd1)" "mutexLocked wd1 = mutexLocked stale_world"
    by blast
  have "\<exists>wd'. Handle ul (Suc 0) (10 * Minute) (Color default_console) (reset_record 0) wd1
      = Some (None, wd')"
    using w(2)
    by (simp add: ColorHandler_Handle_def Mutex_Lock_def default_console_def stale_world_def
        world1_def world0_def Let_def)
  then show ?thesis using w(1) by simp
qed

lemma not_pass_chromedp: "\<not> passesEarlierRules default_filter (chromedp_record t)"
  by (simp add: chromedp_record_def passesEarlierRules_def chromedpInternalRegex_def
      HasPrefix_def)

theorem stale_entries_purged_at_duplicate_rule_witness:
  "\<forall>ul.
     (\<exists>wd'. Handle ul (Suc (Suc 0)) (10 * Minute)
          (SmartFilterHandler default_filter (Color default_console))
          (reset_record 0) stale_world = Some (None, wd')
        \<and> no_stale (10 * Minute) (errorWindow default_filter) (errorTracker default_filter) wd')
     \<and> (\<exists>wd'. Handle ul (Suc (Suc 0)) (10 * Minute)
          (SmartFilterHandler default_filter (Color default_console))
          (hello_record LevelError) stale_world = Some (None, wd')
        \<and> errorTrackers wd' = errorTrackers stale_world)
     \<and> Handle ul (Suc (Suc 0)) (10 * Minute)
          (SmartFilterHandler default_filter (Color default_console))
          (chromedp_record 0) stale_world = Some (None, stale_world)"
  (is "\<forall>ul. ?purged ul \<and> ?kept ul \<and> ?untouched ul")
proof (intro allI conjI)
  fix ul
  note t = stale_entries_purged_at_duplicate_rule
      [where ul = ul and h = default_filter and wd = stale_world and now = "10 * Minute"
         and n = "Suc 0" and inner = "Color default_console" and res = None]
  obtain wd' where h: "Handle ul (Suc (Suc 0)) (10 * Minute)
      (SmartFilterHandler default_filter (Color default_console)) (reset_record 0) stale_world
      = Some (None, wd')"
    using Handle_reset_stale by blast
  have w: "0 \<le> errorWindow default_filter"
    by (simp add: default_filter_def Minute_def)
  show "?purged ul"
    using t [where r = "reset_record 0" and wd' = wd'] noisy_reset [of ul 0] pass_reset [of 0] w h
    by blast
  obtain wd'' where k: "Handle ul (Suc (Suc 0)) (10 * Minute)
      (SmartFilterHandler default_filter (Color default_console)) (hello_record LevelError)
      stale_world = Some (None, wd'')"
    using Handle_hello_stale by blast
  show "?kept ul"
    using t [where r = "hello_record LevelError" and wd' = wd''] not_noisy_hello [of ul LevelError] k
    by blast
  show "?untouched ul"
    using t [where r = "chromedp_record 0"] not_pass_chromedp [of 0]
    by blast
qed


section \<open>Properties of derived handlers and of the fan-out\<close>

lemma derive_filter_fields:
  assumes "derive_filter h wd = (h', wd')"
  shows "errorTracker h' = errorTracker h \<and> errorWindow h' = errorWindow h
     \<and> minLevel h' = minLevel h \<and> ignoreGinDebug h' = ignoreGinDebug h
     \<and> ignoreHealthCheck h' = ignoreHealthCheck h \<and> errorMutex h' = nextAddr wd
     \<and> errorTrackers wd' = errorTrackers wd"
  using assms by (auto simp add: derive_filter_def Let_def)

lemma passesEarlierRules_derived:
  assumes "minLevel h' = minLevel h" and "ignoreGinDebug h' = ignoreGinDebug h"
    and "ignoreHealthCheck h' = ignoreHealthCheck h"
  shows "passesEarlierRules h' r = passesEarlierRules h r"
  using assms by (simp add: passesEarlierRules_def)

lemma WithAttrs_filter_shares:
  assumes "WithAttrs (SmartFilterHandler h inner) attrs wd = (d, wd')"
  shows "\<exists>h' inner'. d = SmartFilterHandler h' inner'
     \<and> errorTracker h' = errorTracker h \<and> errorWindow h' = errorWindow h
     \<and> passesEarlierRules h' = passesEarlierRules h"
proof -
  obtain inner' wd1 where i: "WithAttrs inner attrs wd = (inner', wd1)"
    by (cases "WithAttrs inner attrs wd")
  obtain h' wd2 where dv: "derive_filter h wd1 = (h', wd2)"
    by (cases "derive_filter h wd1")
  have d: "d = SmartFilterHandler h' inner'"
    using assms i dv by simp
  note f = derive_filter_fields [OF dv]
  have "passesEarlierRules h' = passesEarlierRules h"
    using f by (simp add: fun_eq_iff passesEarlierRules_def)
  then show ?thesis using d f by blast
qed

lemma WithGroup_filter_shares:
  assumes "WithGroup (SmartFilterHandler h inner) name wd = (d, wd')"
  shows "\<exists>h' inner'. d = SmartFilterHandler h' inner'
     \<and> errorTracker h' = errorTracker h \<and> errorWindow h' = errorWindow h
     \<and> passesEarlierRules h' = passesEarlierRules h"
proof -
  obtain inner' wd1 where i: "WithGroup inner name wd = (inner', wd1)"
    by (cases "WithGroup inner name wd")
  obtain h' wd2 where dv: "derive_filter h wd1 = (h', wd2)"
    by (cases "derive_filter h wd1")
  have d: "d = SmartFilterHandler h' inner'"
    using assms i dv by simp
  note f = derive_filter_fields [OF dv]
  have "passesEarlierRules h' = passesEarlierRules h"
    using f by (simp add: fun_eq_iff passesEarlierRules_def)
  then show ?thesis using d f by blast
qed

lemma accepted_records_entry:
  assumes "noisyTransient ul (Message r)" and "passesEarlierRules h r"
    and "\<not> mutexLocked wd (errorMutex h)"
    and "filterRules ul T h r wd = Some (False, wd1)"
  shows "errorTrackers wd1 (errorTracker h) (Message r) = Some T"
  using assms(4)
  by (simp add: filterRules_noisy [OF assms(1,2,3)] Let_def split: if_splits) auto

lemma entry_in_window_rejected:
  assumes "noisyTransient ul (Message r)" and "passesEarlierRules h r"
    and "\<not> mutexLocked wd (errorMutex h)"
    and "errorTrackers wd (errorTracker h) (Message r) = Some T"
    and "T \<le> now" and "now - T < errorWindow h"
  shows "\<exists>wd2. filterRules ul now h r wd = Some (True, wd2)
     \<and> errorTrackers wd2 (errorTracker h) (Message r) = Some T"
  using assms(4,5,6)
  by (simp add: filterRules_noisy [OF assms(1,2,3)] Let_def purge_def)

text \<open>
  The handlers that \<open>WithAttrs\<close> and \<open>WithGroup\<close> return use the map of the handler
  they come from: a noisy-transient record accepted through one of the two at time
  \<open>T\<close> is rejected as a duplicate through the other at any time \<open>now\<close> within the
  window, when the calls follow one another (each finds its lock free).
\<close>

lemma dedup_global_across_derived:
  assumes der: "WithAttrs (SmartFilterHandler h inner) attrs wd0 = (d, wd0')
                \<or> WithGroup (SmartFilterHandler h inner) name wd0 = (d, wd0')"
    and noisy: "noisyTransient ul (Message r)" and pass: "passesEarlierRules h r"
    and inwin: "T \<le> now" "now - T < errorWindow h"
  shows "\<exists>h' inner'. d = SmartFilterHandler h' inner'
     \<and> (\<forall>wdA wd1 wdB.
           \<not> mutexLocked wdA (errorMutex h) \<and> filterRules ul T h r wdA = Some (False, wd1)
           \<and> \<not> mutexLocked wdB (errorMutex h')
           \<and> errorTrackers wdB (errorTracker h) = errorTrackers wd1 (errorTracker h)
           \<longrightarrow> (\<exists>wd2. filterRules ul now h' r wdB = Some (True, wd2)))
     \<and> (\<forall>wdA wd1 wdB.
           \<not> mutexLocked wdA (errorMutex h') \<and> filterRules ul T h' r wdA = Some (False, wd1)
           \<and> \<not> mutexLocked wdB (errorMutex h)
           \<and> errorTrackers wdB (errorTracker h) = errorTrackers wd1 (errorTracker h)
           \<longrightarrow> (\<exists>wd2. filterRules ul now h r wdB = Some (True, wd2)))"
proof -
  from der obtain h' inner' where d: "d = SmartFilterHandler h' inner'"
    and t: "errorTracker h' = errorTracker h" and w: "errorWindow h' = errorWindow h"
    and p: "passesEarlierRules h' = passesEarlierRules h"
    using WithAttrs_filter_shares WithGroup_filter_shares by blast
  have pass': "passesEarlierRules h' r" using p pass by simp
  have a: "\<exists>wd2. filterRules ul now h' r wdB = Some (True, wd2)"
    if "\<not> mutexLocked wdA (errorMutex h)" "filterRules ul T h r wdA = Some (False, wd1)"
      "\<not> mutexLocked wdB (errorMutex h')"
      "errorTrackers wdB (errorTracker h) = errorTrackers wd1 (errorTracker h)"
    for wdA wd1 wdB
  proof -
    have "errorTrackers wd1 (errorTracker h) (Message r) = Some T"
      using accepted_records_entry [OF noisy pass that(1,2)] .
    then have "errorTrackers wdB (errorTracker h') (Message r) = Some T"
      using that(4) t by simp
    then show ?thesis
      using entry_in_window_rejected [OF noisy pass' that(3) _ inwin(1)] inwin(2) w by auto
  qed
  have b: "\<exists>wd2. filterRules ul now h r wdB = Some (True, wd2)"
    if "\<not> mutexLocked wdA (errorMutex h')" "filterRules ul T h' r wdA = Some (False, wd1)"
      "\<not> mutexLocked wdB (errorMutex h)"
      "errorTrackers wdB (errorTracker h) = errorTrackers wd1 (errorTracker h)"
    for wdA wd1 wdB
  proof -
    have "errorTrackers wd1 (errorTracker h') (Message r) = Some T"
      using accepted_records_entry [OF noisy pass' that(1,2)] .
    then have "errorTrackers wdB (errorTracker h) (Message r) = Some T"
      using that(4) t by simp
    then show ?thesis
      using entry_in_window_rejected [OF noisy pass that(3) _ inwin(1)] inwin(2) by auto
  qed
  from d a b show ?thesis by blast
qed


text \<open>
  The default console filter, the handler that its \<open>WithAttrs\<close> returns, and the
  world in which some goroutine holds the lock of the original (it is inside the
  critical section of \<open>shouldFilterDuplicateError\<close>).
\<close>

definition console_filter :: Handler where
  "console_filter = SmartFilterHandler default_filter (Color default_console)"

definition derived_filter :: Handler where
  "derived_filter = fst (WithAttrs console_filter [(''request_id'', ScalarValue ''r1'')] world1)"

definition derived_world :: World where
  "derived_world = snd (WithAttrs console_filter [(''request_id'', ScalarValue ''r1'')] world1)"

definition held_world :: World where
  "held_world = derived_world\<lparr>mutexLocked := (mutexLocked derived_world)(errorMutex default_filter := True)\<rparr>"

lemma derived_filter_eq:
  "derived_filter = SmartFilterHandler (default_filter\<lparr>errorMutex := 3\<rparr>) (Color default_console)"
  by (simp add: derived_filter_def console_filter_def derive_filter_def world1_def world0_def Let_def)

lemma derived_world_eq:
  "derived_world = world1\<lparr>mutexLocked := (mutexLocked world1)(3 := False), nextAddr := 4\<rparr>"
  by (simp add: derived_world_def console_filter_def derive_filter_def world1_def world0_def Let_def)

text \<open>
  C4, on the code: the handler derived by \<open>WithAttrs\<close> shares the dedup map of the
  original but not its lock. While the lock of the original is held, a call through
  the original does not get past \<open>Lock\<close>; the same call through the derived handler
  goes ahead and writes its entry into the shared map, with the lock of the original
  still held.
\<close>

theorem derived_filter_ignores_parent_lock:
  "\<forall>ul. Mutex_Lock (errorMutex default_filter) derived_world = Some held_world
     \<and> Handle ul (Suc (Suc 0)) 0 console_filter (reset_record 0) held_world = None
     \<and> (\<exists>wd'. Handle ul (Suc (Suc 0)) 0 derived_filter (reset_record 0) held_world
            = Some (None, wd')
          \<and> errorTrackers wd' (errorTracker default_filter) (Message (reset_record 0)) = Some 0
          \<and> mutexLocked wd' (errorMutex default_filter))"
  (is "\<forall>ul. ?unguarded ul")
proof (rule allI)
  fix ul
  have l: "Mutex_Lock (errorMutex default_filter) derived_world = Some held_world"
    by (simp add: Mutex_Lock_def held_world_def derived_world_eq world1_def world0_def
        default_filter_def)
  have held: "mutexLocked held_world (errorMutex default_filter)"
    by (simp add: held_world_def)
  have "shouldFilterDuplicateError 0 default_filter (Message (reset_record 0)) held_world = None"
    using held by (simp add: shouldFilterDuplicateError_def Mutex_Lock_def)
  then have "filterRules ul 0 default_filter (reset_record 0) held_world = None"
    using noisy_reset [of ul 0]
    by (simp add: filterRules_at_duplicate_rule [OF pass_reset] isDuplicateContextError_def)
  then have p: "Handle ul (Suc (Suc 0)) 0 console_filter (reset_record 0) held_world = None"
    by (simp add: console_filter_def)
  have pass': "passesEarlierRules (default_filter\<lparr>errorMutex := 3\<rparr>) (reset_record 0)"
    using pass_reset [of 0] by (simp add: passesEarlierRules_def)
  have free': "\<not> mutexLocked held_world (errorMutex (default_filter\<lparr>errorMutex := 3\<rparr>))"
    by (simp add: held_world_def derived_world_eq world1_def world0_def default_filter_def)
  note fr = filterRules_noisy [OF noisy_reset pass' free']
  have nd: "purge 0 (errorWindow default_filter)
      (errorTrackers held_world (errorTracker default_filter)) (Message (reset_record 0)) = None"
    by (simp add: purge_def held_world_def derived_world_eq world1_def world0_def)
  have "\<exists>wd1. filterRules ul 0 (default_filter\<lparr>errorMutex := 3\<rparr>) (reset_record 0) held_world
        = Some (False, wd1)
      \<and> errorTrackers wd1 (errorTracker default_filter) (Message (reset_record 0)) = Some 0
      \<and> mutexLocked wd1 = mutexLocked held_world"
    by (simp add: fr nd Let_def TrimSpace_reset)
  then obtain wd1 where w: "filterRules ul 0 (default_filter\<lparr>errorMutex := 3\<rparr>) (reset_record 0)
        held_world = Some (False, wd1)"
      "errorTrackers wd1 (errorTracker default_filter) (Message (reset_record 0)) = Some 0"
      "mutexLocked wd1 = mutexLocked held_world"
    by blast
  have "\<exists>wd'. Handle ul (Suc 0) 0 (Color default_console) (reset_record 0) wd1 = Some (None, wd')
      \<and> errorTrackers wd' = errorTrackers wd1
      \<and> mutexLocked wd' (errorMutex default_filter)"
    using w(3)
    by (simp add: ColorHandler_Handle_def Mutex_Lock_def Mutex_Unlock_def write_out_def
        default_console_def held_world_def derived_world_eq world1_def world0_def
        default_filter_def Let_def)
  then have d: "\<exists>wd'. Handle ul (Suc (Suc 0)) 0 derived_filter (reset_record 0) held_world = Some (None, wd')
        \<and> errorTrackers wd' (errorTracker default_filter) (Message (reset_record 0)) = Some 0
        \<and> mutexLocked wd' (errorMutex default_filter)"
    using w(1,2) by (auto simp add: derived_filter_eq)
  from l p d show "?unguarded ul" by blast
qed

text \<open>
  The world after \<open>InitWithDefaults\<close> in which every write to the log file fails.
\<close>

definition failing_world :: World where
  "failing_world = world1\<lparr>writeFails := (writeFails world1)(LogFile := True)\<rparr>"

lemma filterRules_frame:
  assumes "filterRules ul now h r wd = Some (rej, wd1)"
  shows "slogDefault wd1 = slogDefault wd \<and> writeFails wd1 = writeFails wd
     \<and> mutexLocked wd1 = mutexLocked wd"
proof -
  from filterRules_cases [OF assms]
  show ?thesis
  proof
    assume "wd1 = wd"
    then show ?thesis by simp
  next
    assume "\<exists>dup. shouldFilterDuplicateError now h (Message r) wd = Some (dup, wd1)"
    then obtain dup where s: "shouldFilterDuplicateError now h (Message r) wd = Some (dup, wd1)"
      by blast
    have free: "\<not> mutexLocked wd (errorMutex h)"
      using s by (auto simp add: shouldFilterDuplicateError_def Mutex_Lock_def split: if_splits)
    show ?thesis
      using s by (auto simp add: shouldFilterDuplicateError_free [OF free] Let_def)
  qed
qed

lemma ColorHandler_Handle_frame:
  assumes "ColorHandler_Handle now h r wd = Some wd1"
  shows "slogDefault wd1 = slogDefault wd \<and> writeFails wd1 = writeFails wd
     \<and> mutexLocked wd1 = mutexLocked wd"
proof -
  have free: "\<not> mutexLocked wd (ch_self h)"
    using assms by (auto simp add: ColorHandler_Handle_def Mutex_Lock_def split: if_splits)
  then have idem: "(mutexLocked wd)(ch_self h := False) = mutexLocked wd"
    by (simp add: fun_upd_idem)
  show ?thesis
    using assms free
    by (auto simp add: ColorHandler_Handle_def Mutex_Lock_def Mutex_Unlock_def write_out_def
        Let_def idem)
qed

lemma console_filter_frame:
  assumes "Handle ul n now (SmartFilterHandler h (Color c)) r wd = Some (res, wd1)"
  shows "res = None \<and> slogDefault wd1 = slogDefault wd \<and> writeFails wd1 = writeFails wd"
proof (cases n)
  case 0
  then show ?thesis using assms by simp
next
  case (Suc m)
  from assms Suc obtain rej wd2 where f: "filterRules ul now h r wd = Some (rej, wd2)"
    by (auto split: option.splits)
  note fr = filterRules_frame [OF f]
  show ?thesis
  proof (cases rej)
    case True
    then show ?thesis using assms Suc f fr by simp
  next
    case False
    then have c: "Handle ul m now (Color c) r wd2 = Some (res, wd1)"
      using assms Suc f by simp
    show ?thesis
    proof (cases m)
      case 0
      then show ?thesis using c by simp
    next
      case (Suc k)
      from c Suc obtain wd3 where "ColorHandler_Handle now c r wd2 = Some wd3" "res = None" "wd1 = wd3"
        by (auto split: option.splits)
      then show ?thesis
        using ColorHandler_Handle_frame [of now c r wd2 wd3] fr by simp
    qed
  qed
qed

text \<open>
  With the fan-out installed as the default logger, a failing file member makes
  \<open>Handle\<close> report the failure through \<open>slog.Default().Error\<close>, that is to itself, where
  the file member fails again: no depth of nested calls is enough for the call to
  return.
\<close>

lemma default_logger_never_returns:
  assumes "slogDefault wd = default_logger" and "writeFails wd LogFile" and "LevelInfo \<le> Level r"
  shows "Handle ul n now default_logger r wd = None"
  using assms
proof (induction n arbitrary: r wd)
  case 0
  then show ?case by simp
next
  case (Suc n)
  let ?F = "SmartFilterHandler default_filter (Color default_console)"
  have enF: "Enabled ?F (Level r)"
    using Suc.prems(3) by (simp add: default_filter_def default_console_def)
  have enS: "Enabled (Std default_file) (Level r)"
    using Suc.prems(3) by (simp add: default_file_def)
  have enD: "Enabled default_logger LevelError"
    by (simp add: default_logger_def default_filter_def default_console_def LevelInfo_def
        LevelError_def)
  have fileNone: "dispatch ul n now [Std default_file] r wd1 = None"
    if d: "slogDefault wd1 = default_logger" and w: "writeFails wd1 LogFile" for wd1
  proof (cases n)
    case 0
    then show ?thesis using enS by simp
  next
    case (Suc m)
    have ih: "Handle ul n now default_logger (error_record now (WriteError LogFile)) wd1 = None"
      by (rule Suc.IH [OF d w]) (simp add: error_record_def LevelInfo_def LevelError_def)
    have "Handle ul n now (Std default_file) (Clone r) wd1 = Some (Some (WriteError LogFile), wd1)"
      using Suc w by (simp add: StdHandler_Handle_def default_file_def)
    then show ?thesis
      using enS enD d ih by simp
  qed
  have "dispatch ul n now [?F, Std default_file] r wd = None"
  proof (cases "Handle ul n now ?F (Clone r) wd")
    case None
    then show ?thesis using enF by simp
  next
    case (Some p)
    obtain res wd1 where p: "p = (res, wd1)" by (cases p)
    note fr = console_filter_frame [OF Some [unfolded p]]
    have "dispatch ul n now [Std default_file] r wd1 = None"
      using fileNone fr Suc.prems(1,2) by simp
    then show ?thesis
      using enF Some p fr by simp
  qed
  then show ?case
    by (simp add: default_logger_def)
qed

text \<open>
  C5, on the code: after \<open>InitWithDefaults\<close> with the default configuration (console
  and file members behind one \<open>MultiHandler\<close>, installed as \<open>slog.Default()\<close>), with a
  log file whose writes fail, \<open>Handle\<close> of the fan-out does not return for an info
  record, whatever depth of nested calls is allowed.
\<close>

theorem fanout_reports_failure_to_itself:
  "fst (InitWithDefaults defaultConfig True world0)
   \<and> slogDefault failing_world = default_logger
   \<and> failing_world = (snd (InitWithDefaults defaultConfig True world0))
        \<lparr>writeFails := (writeFails world0)(LogFile := True)\<rparr>
   \<and> (\<forall>ul n. Handle ul n 0 (slogDefault failing_world) (hello_record LevelInfo) failing_world
        = None)"
proof -
  have a: "slogDefault failing_world = default_logger"
    by (simp add: failing_world_def world1_def)
  have w: "writeFails failing_world LogFile"
    by (simp add: failing_world_def)
  have l: "LevelInfo \<le> Level (hello_record LevelInfo)"
    by (simp add: hello_record_def)
  have b: "Handle ul n 0 (slogDefault failing_world) (hello_record LevelInfo) failing_world = None"
    for ul n
    using default_logger_never_returns [OF a w l] a by simp
  have c: "failing_world = (snd (InitWithDefaults defaultConfig True world0))
        \<lparr>writeFails := (writeFails world0)(LogFile := True)\<rparr>"
    unfolding InitWithDefaults_default
    by (simp add: failing_world_def world1_def world0_def)
  from a b c show ?thesis
    by (simp add: InitWithDefaults_default)
qed

text \<open>
  With every writer working, the same call returns within three nested calls, and
  both members have received the record.
\<close>

lemma fanout_delivers_to_both:
  "\<exists>wd'. Handle ul (Suc (Suc (Suc 0))) 0 default_logger (hello_record LevelInfo) world1
        = Some (None, wd')
     \<and> written wd' Stderr = [ColorLine False True (hello_record LevelInfo)]
     \<and> written wd' LogFile = [StdLine True [] (hello_record LevelInfo)]"
proof -
  have enA: "Enabled (Std default_file) (Level (hello_record LevelInfo))"
    by (simp add: default_file_def hello_record_def)
  have enB: "Enabled (SmartFilterHandler default_filter (Color default_console))
      (Level (hello_record LevelInfo))"
    by (simp add: default_filter_def default_console_def hello_record_def)
  have f: "filterRules ul 0 default_filter (hello_record LevelInfo) world1 = Some (False, world1)"
    by (rule filterRules_hello) (simp add: default_filter_def)
  have "\<exists>wd1. Handle ul (Suc (Suc 0)) 0 (SmartFilterHandler default_filter (Color default_console))
        (Clone (hello_record LevelInfo)) world1 = Some (None, wd1)
      \<and> written wd1 Stderr = [ColorLine False True (hello_record LevelInfo)]
      \<and> written wd1 LogFile = [] \<and> \<not> writeFails wd1 LogFile"
    by (simp add: Clone_def f)
       (simp add: ColorHandler_Handle_def Mutex_Lock_def Mutex_Unlock_def write_out_def
        default_console_def world1_def world0_def Let_def Stderr_def LogFile_def)
  then obtain wd1 where b: "Handle ul (Suc (Suc 0)) 0
        (SmartFilterHandler default_filter (Color default_console))
        (Clone (hello_record LevelInfo)) world1 = Some (None, wd1)"
     and o: "written wd1 Stderr = [ColorLine False True (hello_record LevelInfo)]"
       "written wd1 LogFile = []" "\<not> writeFails wd1 LogFile"
    by blast
  have a: "\<exists>wd'. Handle ul (Suc (Suc 0)) 0 (Std default_file) (Clone (hello_record LevelInfo)) wd1
        = Some (None, wd')
     \<and> written wd' Stderr = [ColorLine False True (hello_record LevelInfo)]
     \<and> written wd' LogFile = [StdLine True [] (hello_record LevelInfo)]"
    using o
    by (simp add: Clone_def StdHandler_Handle_def default_file_def write_out_def
        Stderr_def LogFile_def)
  then obtain wd' where w: "Handle ul (Suc (Suc 0)) 0 (Std default_file) (Clone (hello_record LevelInfo))
        wd1 = Some (None, wd')"
     "written wd' Stderr = [ColorLine False True (hello_record LevelInfo)]"
     "written wd' LogFile = [StdLine True [] (hello_record LevelInfo)]"
    by blast
  have "dispatch ul (Suc (Suc 0)) 0
        [SmartFilterHandler default_filter (Color default_console), Std default_file]
        (hello_record LevelInfo) world1 = Some wd'"
    using enA enB b w(1) by simp
  then show ?thesis using w(2,3) by (simp add: default_logger_def)
qed

text \<open>
  The fan-out used on its own, with Go's built-in default logger still installed and
  a log file whose writes fail: the failing file member comes first, its error is
  reported to the built-in logger, the console member still receives and renders the
  record, and \<open>Handle\<close> returns \<open>nil\<close>.
\<close>

definition standalone_world :: World where
  "standalone_world =
     world1\<lparr>slogDefault := slogDefault world0, writeFails := (writeFails world1)(LogFile := True)\<rparr>"

lemma fanout_failing_member_first:
  "\<exists>wd'. Handle ul (Suc (Suc (Suc 0))) 0
        (MultiHandler [Std default_file, SmartFilterHandler default_filter (Color default_console)])
        (hello_record LevelInfo) standalone_world = Some (None, wd')
     \<and> written wd' Stderr
         = [StdLine False [] (error_record 0 (WriteError LogFile)),
            ColorLine False True (hello_record LevelInfo)]
     \<and> written wd' LogFile = []"
proof -
  have enA: "Enabled (Std default_file) (Level (hello_record LevelInfo))"
    by (simp add: default_file_def hello_record_def)
  have enB: "Enabled (SmartFilterHandler default_filter (Color default_console))
      (Level (hello_record LevelInfo))"
    by (simp add: default_filter_def default_console_def hello_record_def)
  have a: "Handle ul (Suc (Suc 0)) 0 (Std default_file) (Clone (hello_record LevelInfo)) standalone_world
      = Some (Some (WriteError LogFile), standalone_world)"
    by (simp add: StdHandler_Handle_def default_file_def standalone_world_def)
  have dflt: "slogDefault standalone_world
      = Std \<lparr>sh_w = Stderr, sh_Level = None, sh_json = False, sh_bound = []\<rparr>"
    by (simp add: standalone_world_def world0_def)
  define wd1 where "wd1 = write_out Stderr [StdLine False [] (error_record 0 (WriteError LogFile))]
      standalone_world"
  have e: "Handle ul (Suc (Suc 0)) 0 (slogDefault standalone_world)
      (error_record 0 (WriteError LogFile)) standalone_world = Some (None, wd1)"
    by (simp add: dflt StdHandler_Handle_def wd1_def standalone_world_def world1_def world0_def
        Stderr_def LogFile_def)
  have enD: "Enabled (slogDefault standalone_world) LevelError"
    by (simp add: dflt LevelInfo_def LevelError_def)
  have f: "filterRules ul 0 default_filter (hello_record LevelInfo) wd1 = Some (False, wd1)"
    by (rule filterRules_hello) (simp add: default_filter_def)
  have b: "\<exists>wd'. Handle ul (Suc (Suc 0)) 0 (SmartFilterHandler default_filter (Color default_console))
        (Clone (hello_record LevelInfo)) wd1 = Some (None, wd')
     \<and> written wd' Stderr
         = [StdLine False [] (error_record 0 (WriteError LogFile)),
            ColorLine False True (hello_record LevelInfo)]
     \<and> written wd' LogFile = []"
    by (simp add: Clone_def f)
       (simp add: ColorHandler_Handle_def Mutex_Lock_def Mutex_Unlock_def write_out_def
        default_console_def wd1_def standalone_world_def world1_def world0_def Let_def
        Stderr_def LogFile_def)
  then obtain wd' where w: "Handle ul (Suc (Suc 0)) 0
        (SmartFilterHandler default_filter (Color default_console))
        (Clone (hello_record LevelInfo)) wd1 = Some (None, wd')"
     "written wd' Stderr
         = [StdLine False [] (error_record 0 (WriteError LogFile)),
            ColorLine False True (hello_record LevelInfo)]"
     "written wd' LogFile = []"
    by blast
  have "dispatch ul (Suc (Suc 0)) 0
        [Std default_file, SmartFilterHandler default_filter (Color default_console)]
        (hello_record LevelInfo) standalone_world = Some wd'"
    using enA enB a e enD w(1) by simp
  then show ?thesis using w(2,3) by simp
qed


section \<open>Properties of the highlighter\<close>

lemma ReplaceAllStringFunc_no_match:
  "rx re src = [] \<Longrightarrow> ReplaceAllStringFunc rx re src repl = src"
  by (simp add: ReplaceAllStringFunc_def)

lemma keyword_pass_no_match:
  "(\<And>keyword colorFunc. (keyword, colorFunc) \<in> set order
       \<Longrightarrow> rx (keywordRegexes keyword) msg = [])
   \<Longrightarrow> foldl (\<lambda>m (keyword, colorFunc).
                 ReplaceAllStringFunc rx (keywordRegexes keyword) m (paint colorFunc)) msg order
       = msg"
proof (induction order)
  case Nil
  then show ?case by simp
next
  case (Cons kc order)
  obtain k c where kc: "kc = (k, c)" by (cases kc)
  have "rx (keywordRegexes k) msg = []"
    using Cons.prems [of k c] kc by simp
  then have step: "ReplaceAllStringFunc rx (keywordRegexes k) msg (paint c) = msg"
    by (rule ReplaceAllStringFunc_no_match)
  have rest: "foldl (\<lambda>m (keyword, colorFunc).
                 ReplaceAllStringFunc rx (keywordRegexes keyword) m (paint colorFunc)) msg order
       = msg"
  proof (rule Cons.IH)
    fix keyword colorFunc
    assume "(keyword, colorFunc) \<in> set order"
    then show "rx (keywordRegexes keyword) msg = []"
      using Cons.prems [of keyword colorFunc] by simp
  qed
  show ?case
    using step rest kc by simp
qed

text \<open>
  C9. For every message in which none of the four passes finds a match (no keyword
  pattern of the dictionary, not the numeric, the URL or the IPv4 pattern), \<open>colorize\<close>
  with highlighting enabled returns the message as it is, in whatever order the
  keywords are visited; with highlighting disabled it returns every message as it is.
\<close>

theorem colorize_no_match_identity:
  assumes "set order = set keywordColors"
    and "\<forall>(keyword, colorFunc) \<in> set keywordColors. rx (keywordRegexes keyword) msg = []"
    and "rx numericRegex msg = []"
    and "rx urlRegex msg = []"
    and "rx ipRegex msg = []"
  shows "colorize rx paint order msg True = msg \<and> colorize rx paint order msg' False = msg'"
proof -
  have k: "foldl (\<lambda>m (keyword, colorFunc).
                 ReplaceAllStringFunc rx (keywordRegexes keyword) m (paint colorFunc)) msg order
       = msg"
    using assms(1,2) by (intro keyword_pass_no_match) auto
  show ?thesis
    using k assms(3,4,5) by (simp add: colorize_def ReplaceAllStringFunc_no_match)
qed

text \<open>
  A matcher to try the property on: it knows one match, the word \<open>error\<close> in the message
  \<open>disk error\<close>, and a painter that puts the match in brackets.
\<close>

definition sample_regexp :: Regexp where
  "sample_regexp re src =
     (if re = keywordRegexes ''error'' \<and> src = ''disk error'' then [(5, 10)] else [])"

definition sample_painter :: Painter where
  "sample_painter p s = ''['' @ s @ '']''"

lemma sample_colorize_match:
  "colorize sample_regexp sample_painter [(''error'', HiRedString)] ''disk error'' True
     = ''disk [error]''"
  by (simp add: colorize_def ReplaceAllStringFunc_def sample_regexp_def sample_painter_def)

theorem colorize_no_match_identity_witness:
  "colorize sample_regexp sample_painter keywordColors ''ready'' True = ''ready''
   \<and> colorize sample_regexp sample_painter keywordColors ''disk error'' False = ''disk error''"
proof -
  have a: "\<forall>(keyword, colorFunc) \<in> set keywordColors.
      sample_regexp (keywordRegexes keyword) ''ready'' = []"
    by (simp add: sample_regexp_def)
  show ?thesis
    using colorize_no_match_identity
      [of keywordColors sample_regexp "''ready''" sample_painter "''disk error''", OF refl a]
    by (simp add: sample_regexp_def)
qed


section \<open>Properties of the colour handler\<close>

text \<open>
  C8. For every colour handler, attribute list and group name, \<open>WithAttrs\<close> and
  \<open>WithGroup\<close> return the handler itself and change nothing, so a record handled
  through the result is handled exactly as through the handler; what the handler
  writes for a record is the record with the handler's two rendering switches,
  in which bound attributes or group names have no part.
\<close>

theorem ColorHandler_WithAttrs_WithGroup_noop:
  "WithAttrs (Color h) attrs wd = (Color h, wd)
   \<and> WithGroup (Color h) name wd = (Color h, wd)
   \<and> Handle ul n now (fst (WithAttrs (Color h) attrs wd)) r wd' = Handle ul n now (Color h) r wd'
   \<and> Handle ul n now (fst (WithGroup (Color h) name wd)) r wd' = Handle ul n now (Color h) r wd'
   \<and> (ColorHandler_Handle now h r wd' = Some wd'' \<longrightarrow> \<not> writeFails wd' (ch_w h) \<longrightarrow>
        last (written wd'' (ch_w h)) = ColorLine (compactMode h) (enableHighlight h) r)"
proof -
  have "ColorHandler_Handle now h r wd' = Some wd'' \<Longrightarrow> \<not> writeFails wd' (ch_w h) \<Longrightarrow>
        last (written wd'' (ch_w h)) = ColorLine (compactMode h) (enableHighlight h) r"
    by (auto simp add: ColorHandler_Handle_def Mutex_Lock_def Mutex_Unlock_def write_out_def Let_def
        split: if_splits)
  then show ?thesis by simp
qed

theorem ColorHandler_WithAttrs_WithGroup_noop_witness:
  "\<forall>ul. WithAttrs (Color default_console) [(''user'', ScalarValue ''u1'')] world1
       = (Color default_console, world1)
     \<and> WithGroup (Color default_console) ''req'' world1 = (Color default_console, world1)
     \<and> (\<exists>wd''. Handle ul (Suc 0) 0
            (fst (WithAttrs (Color default_console) [(''user'', ScalarValue ''u1'')] world1))
            (hello_record LevelInfo) world1 = Some (None, wd'')
          \<and> last (written wd'' Stderr) = ColorLine False True (hello_record LevelInfo))"
  (is "\<forall>ul. ?same ul")
proof (rule allI)
  fix ul
  have c: "\<exists>wd''. ColorHandler_Handle 0 default_console (hello_record LevelInfo) world1 = Some wd''"
    by (simp add: ColorHandler_Handle_def Mutex_Lock_def default_console_def world1_def world0_def
        Let_def)
  then obtain wd'' where w: "ColorHandler_Handle 0 default_console (hello_record LevelInfo) world1
      = Some wd''" by blast
  have nf: "\<not> writeFails world1 (ch_w default_console)"
    by (simp add: world1_def world0_def)
  have cm: "ch_w default_console = Stderr" "compactMode default_console = False"
    "enableHighlight default_console = True"
    by (simp_all add: default_console_def)
  show "?same ul"
    using ColorHandler_WithAttrs_WithGroup_noop
      [of default_console "[(''user'', ScalarValue ''u1'')]" world1 "''req''" ul "Suc 0" 0
          "hello_record LevelInfo" world1 wd'']
      w nf cm
    by simp
qed


end
